theory Spec2Isabelle
  imports Complex_Main "HOL-Library.AList"
begin

section \<open>The service daemon (services/service\_daemon.py): model\<close>

subsection \<open>Python values, exceptions, strings\<close>

text \<open>
  The values \<open>json.loads\<close> produces and \<open>json.dumps\<close> consumes. A Python dict keeps
  insertion order and has unique keys: it is an association list, written with
  \<open>AList.update\<close> (assignment: in place for a present key, appended otherwise) and
  \<open>AList.delete\<close> (\<open>pop(k, None)\<close>). Floats are read as the reals they denote.
\<close>

datatype pyval =
    PNone
  | PBool bool
  | PInt int
  | PFloat real
  | PStr string
  | PList "pyval list"
  | PDict "(string \<times> pyval) list"

text \<open>An exception carries its message, which is what \<open>str(e)\<close> returns.\<close>

datatype exn =
    RuntimeError string
  | ValueError string
  | AttributeError string
  | OSError string
  | UnicodeEncodeError string

fun str_exn :: "exn \<Rightarrow> string" where
  "str_exn (RuntimeError m) = m"
| "str_exn (ValueError m) = m"
| "str_exn (AttributeError m) = m"
| "str_exn (OSError m) = m"
| "str_exn (UnicodeEncodeError m) = m"

text \<open>Truthiness, as \<open>x or y\<close> and \<open>if x\<close> test it.\<close>

fun truthy :: "pyval \<Rightarrow> bool" where
  "truthy PNone = False"
| "truthy (PBool b) = b"
| "truthy (PInt i) = (i \<noteq> 0)"
| "truthy (PFloat r) = (r \<noteq> 0)"
| "truthy (PStr s) = (s \<noteq> [])"
| "truthy (PList xs) = (xs \<noteq> [])"
| "truthy (PDict kvs) = (kvs \<noteq> [])"

definition py_or :: "pyval \<Rightarrow> pyval \<Rightarrow> pyval" where
  "py_or a b = (if truthy a then a else b)"

text \<open>
  \<open>body.get(key)\<close>: only a dict has the method; on any other value the attribute lookup
  raises \<open>AttributeError\<close>.
\<close>

definition dict_get :: "pyval \<Rightarrow> string \<Rightarrow> exn + pyval" where
  "dict_get body k =
     (case body of
        PDict kvs \<Rightarrow> Inr (case map_of kvs k of None \<Rightarrow> PNone | Some v \<Rightarrow> v)
      | _ \<Rightarrow> Inl (AttributeError ''object has no attribute 'get' ''))"

text \<open>
  \<open>str(v)\<close>: a string is returned as it is; for every other value Python prints its
  \<open>repr\<close>, which the model takes as the parameter \<open>repr\<close>.
\<close>

definition py_str :: "(pyval \<Rightarrow> string) \<Rightarrow> pyval \<Rightarrow> string" where
  "py_str repr v = (case v of PStr s \<Rightarrow> s | _ \<Rightarrow> repr v)"

text \<open>\<open>str\<close> of an integer: decimal digits, with a leading minus sign below zero.\<close>

definition digit_char :: "nat \<Rightarrow> char" where
  "digit_char d = char_of (48 + d)"

fun str_nat :: "nat \<Rightarrow> string" where
  "str_nat n = (if n < 10 then [digit_char n] else str_nat (n div 10) @ [digit_char (n mod 10)])"

declare str_nat.simps [simp del]

definition str_int :: "int \<Rightarrow> string" where
  "str_int i = (if i < 0 then CHR ''-'' # str_nat (nat (- i)) else str_nat (nat i))"

text \<open>
  \<open>s.strip()\<close> on text whose characters are ASCII or surrogates: the characters for
  which \<open>isspace\<close> holds.
\<close>

definition is_space :: "char \<Rightarrow> bool" where
  "is_space c = ((of_char c :: nat) \<in> {9, 10, 11, 12, 13, 28, 29, 30, 31, 32})"

definition strip :: "string \<Rightarrow> string" where
  "strip s = rev (dropWhile is_space (rev (dropWhile is_space s)))"

text \<open>
  A character of the model is a byte, and a string is held as the bytes of its UTF-8
  encoding: ASCII text as it is, and a lone surrogate (U+D800 to U+DFFF), which a Python
  \<open>str\<close> may hold and which \<open>json.loads\<close> produces from an escaped one, as the three
  bytes the \<open>surrogatepass\<close> error handler writes for it: 0xED, then a byte from 0xA0 to
  0xBF, then a continuation byte. In the encoding of every other character the byte
  after 0xED is below 0xA0, so \<open>has_surrogate\<close> finds exactly the surrogates.
\<close>

fun has_surrogate :: "string \<Rightarrow> bool" where
  "has_surrogate (a # b # cs) =
     ((of_char a = (237 :: nat) \<and> (160 :: nat) \<le> of_char b) \<or> has_surrogate (b # cs))"
| "has_surrogate cs = False"

text \<open>
  \<open>json.dumps(obj, ensure_ascii=False).encode("utf-8")\<close> succeeds on a value when none of
  the strings in it, keys included, holds a lone surrogate; on one that does, \<open>encode\<close>
  raises \<open>UnicodeEncodeError\<close>.
\<close>

fun encodable :: "pyval \<Rightarrow> bool" where
  "encodable (PStr s) = (\<not> has_surrogate s)"
| "encodable (PList xs) = list_all encodable xs"
| "encodable (PDict kvs) = list_all (\<lambda>kv. \<not> has_surrogate (fst kv) \<and> encodable (snd kv)) kvs"
| "encodable v = True"

subsection \<open>State\<close>

record lease =
  lease_id :: string
  last_seen :: real
  meta :: pyval

text \<open>A \<open>subprocess.Popen\<close> handle, named by the pid of the child it started.\<close>

type_synonym popen = nat

record dstate =
  ensuring :: bool
  stage :: string
  last_error :: "string option"
  leases :: "(string \<times> lease) list"
  last_zero_lease_time :: real
  stt_proc :: "popen option"
  ollama_proc :: "popen option"
  ollama_managed :: bool
  warm_model :: "string option"
  warm_done :: bool
  shutdown_flag :: bool

text \<open>\<open>DaemonState.__init__\<close>, at the monotonic time \<open>t0\<close>.\<close>

definition init_state :: "real \<Rightarrow> dstate" where
  "init_state t0 =
     \<lparr> ensuring = False, stage = ''idle'', last_error = None, leases = [],
       last_zero_lease_time = t0, stt_proc = None, ollama_proc = None,
       ollama_managed = False, warm_model = None, warm_done = False,
       shutdown_flag = False \<rparr>"

definition set_stage :: "string \<Rightarrow> dstate \<Rightarrow> dstate" where
  "set_stage st s = s\<lparr>stage := st\<rparr>"

definition set_error :: "string option \<Rightarrow> dstate \<Rightarrow> dstate" where
  "set_error err s = s\<lparr>last_error := err\<rparr>"

text \<open>The module constants read from the environment at import.\<close>

record config =
  IDLE_TIMEOUT_S :: real
  LEASE_TTL_S :: real
  DEFAULT_HEARTBEAT_S :: real
  STT_HEALTH_URL :: string
  STT_READY_TIMEOUT_S :: real
  KOKORO_BASE_URL :: string
  KOKORO_READY_TIMEOUT_S :: real
  OLLAMA_API_BASE :: string
  OLLAMA_MANAGE_SERVER :: bool
  OLLAMA_MANAGE_MODEL_UNLOAD :: bool
  OLLAMA_READY_TIMEOUT_S :: real
  OLLAMA_KEEP_ALIVE :: string
  LOG_DIR :: string

text \<open>
  What the interpreter and its library contribute: \<open>repr\<close> of a value, the printing
  of a float inside an f-string, which URLs \<open>urllib.request.Request\<close> accepts (it
  raises \<open>ValueError\<close> on one without a scheme), and the subtraction of two floats:
  \<open>a - b\<close> in binary64 is the exact difference rounded to a float, so \<open>fsub a b\<close> is
  \<open>a - b\<close> only where that difference is itself a float.
\<close>

record runtime =
  py_repr :: "pyval \<Rightarrow> string"
  fmt_float :: "real \<Rightarrow> string"
  url_accepted :: "string \<Rightarrow> bool"
  fsub :: "real \<Rightarrow> real \<Rightarrow> real"

definition KOKORO_VOICES_URL :: "config \<Rightarrow> string" where
  "KOKORO_VOICES_URL cfg = KOKORO_BASE_URL cfg @ ''/v1/audio/voices''"

definition OLLAMA_VERSION_URL :: "config \<Rightarrow> string" where
  "OLLAMA_VERSION_URL cfg = OLLAMA_API_BASE cfg @ ''/version''"

definition OLLAMA_GENERATE_URL :: "config \<Rightarrow> string" where
  "OLLAMA_GENERATE_URL cfg = OLLAMA_API_BASE cfg @ ''/generate''"

subsection \<open>Requests and responses\<close>

text \<open>
  A request as the handler reads it: the path, the \<open>Content-Length\<close> header (absent or
  empty, an integer literal, or text \<open>int()\<close> rejects) and what \<open>json.loads\<close> makes of
  the body (\<open>None\<close> when it raises).
\<close>

datatype clen = NoHeader | Digits int | Garbage

record request =
  path :: string
  content_length :: clen
  json_body :: "pyval option"

type_synonym response = "nat \<times> pyval"

definition read_json :: "request \<Rightarrow> exn + pyval" where
  "read_json rq =
     (case content_length rq of
        Garbage \<Rightarrow> Inl (ValueError ''invalid literal for int()'')
      | NoHeader \<Rightarrow> Inr (PDict [])
      | Digits n \<Rightarrow>
          if n \<le> 0 then Inr (PDict [])
          else (case json_body rq of None \<Rightarrow> Inr (PDict []) | Some v \<Rightarrow> Inr v))"

definition err_body :: "string \<Rightarrow> pyval" where
  "err_body e = PDict [(''ok'', PBool False), (''error'', PStr e)]"

definition ok_body :: pyval where
  "ok_body = PDict [(''ok'', PBool True)]"

text \<open>
  \<open>_write_json\<close>: the document is serialised and encoded before anything is sent, so
  when the encoding raises the client gets no response; the socket is taken to accept
  what is written to it.
\<close>

definition write_json :: "nat \<Rightarrow> pyval \<Rightarrow> exn + response" where
  "write_json code obj =
     (if encodable obj then Inr (code, obj)
      else Inl (UnicodeEncodeError ''surrogates not allowed''))"

subsection \<open>\<open>_http_json\<close> and the health probes\<close>

text \<open>
  What the network does to one call of \<open>urlopen\<close>: it raises something other than
  \<open>HTTPError\<close> (refused, timed out, reset), it returns a response, or it raises
  \<open>HTTPError\<close>. Reading the body raises, returns no bytes, or returns bytes that
  \<open>json.loads\<close> rejects (\<open>RawText None\<close>) or parses.
\<close>

datatype reply = ReadRaises | RawEmpty | RawText "pyval option"

datatype http_world = Fails | Status nat reply | HttpError nat reply

text \<open>The body of a \<open>with\<close> block or of the \<open>HTTPError\<close> handler, before its own handlers.\<close>

definition decode_reply :: "nat \<Rightarrow> reply \<Rightarrow> exn + (nat \<times> pyval option)" where
  "decode_reply st r =
     (case r of
        ReadRaises \<Rightarrow> Inl (OSError ''read failed'')
      | RawEmpty \<Rightarrow> Inr (st, None)
      | RawText None \<Rightarrow> Inr (st, None)
      | RawText (Some v) \<Rightarrow> Inr (st, Some v))"

definition http_json :: "runtime \<Rightarrow> string \<Rightarrow> http_world \<Rightarrow> exn + (nat \<times> pyval option)" where
  "http_json rt url w =
     (if \<not> url_accepted rt url then Inl (ValueError ''unknown url type'')
      else (case w of
              Fails \<Rightarrow> Inr (0, None)
            | Status st r \<Rightarrow> (case decode_reply st r of Inl e \<Rightarrow> Inr (0, None) | Inr x \<Rightarrow> Inr x)
            | HttpError c r \<Rightarrow> (case decode_reply c r of Inl e \<Rightarrow> Inr (c, None) | Inr x \<Rightarrow> Inr x)))"

definition has_key :: "pyval option \<Rightarrow> string \<Rightarrow> bool" where
  "has_key body k = (case body of Some (PDict kvs) \<Rightarrow> map_of kvs k \<noteq> None | _ \<Rightarrow> False)"

definition stt_running :: "runtime \<Rightarrow> config \<Rightarrow> http_world \<Rightarrow> exn + bool" where
  "stt_running rt cfg w =
     (case http_json rt (STT_HEALTH_URL cfg) w of
        Inl e \<Rightarrow> Inl e
      | Inr (code, body) \<Rightarrow>
          Inr (code = 200 \<and>
               (case body of Some (PDict kvs) \<Rightarrow> map_of kvs ''ok'' = Some (PBool True) | _ \<Rightarrow> False)))"

text \<open>\<open>_kokoro_running\<close>: \<open>tcp\<close> is the verdict of \<open>_tcp_port_open\<close>, which catches every exception.\<close>

definition kokoro_running :: "runtime \<Rightarrow> config \<Rightarrow> bool \<times> http_world \<Rightarrow> exn + bool" where
  "kokoro_running rt cfg tw =
     (if \<not> fst tw then Inr False
      else (case http_json rt (KOKORO_VOICES_URL cfg) (snd tw) of
              Inl e \<Rightarrow> Inl e
            | Inr (code, body) \<Rightarrow> Inr (code = 200 \<and> has_key body ''voices'')))"

definition ollama_running :: "runtime \<Rightarrow> config \<Rightarrow> http_world \<Rightarrow> exn + bool" where
  "ollama_running rt cfg w =
     (case http_json rt (OLLAMA_VERSION_URL cfg) w of
        Inl e \<Rightarrow> Inl e
      | Inr (code, body) \<Rightarrow> Inr (code = 200 \<and> has_key body ''version''))"

subsection \<open>\<open>Handler.do_GET\<close>\<close>

record status_obs =
  st_stt :: http_world
  st_kokoro :: "bool \<times> http_world"
  st_ollama :: http_world

definition opt_str :: "string option \<Rightarrow> pyval" where
  "opt_str x = (case x of None \<Rightarrow> PNone | Some v \<Rightarrow> PStr v)"

definition status_doc :: "config \<Rightarrow> dstate \<Rightarrow> bool \<Rightarrow> bool \<Rightarrow> bool \<Rightarrow> pyval" where
  "status_doc cfg s stt tts oll =
     PDict [(''ok'', PBool True),
            (''leases'', PInt (int (length (leases s)))),
            (''ensuring'', PBool (ensuring s)),
            (''stage'', PStr (stage s)),
            (''last_error'', opt_str (last_error s)),
            (''idle_timeout_s'', PFloat (IDLE_TIMEOUT_S cfg)),
            (''lease_ttl_s'', PFloat (LEASE_TTL_S cfg)),
            (''services'', PDict [
               (''stt'', PDict [(''running'', PBool stt), (''health'', PStr (STT_HEALTH_URL cfg))]),
               (''tts'', PDict [(''running'', PBool tts), (''voices_url'', PStr (KOKORO_VOICES_URL cfg))]),
               (''ollama'', PDict [(''running'', PBool oll), (''base_url'', PStr (OLLAMA_API_BASE cfg)),
                                   (''managed'', PBool (ollama_managed s))])]),
            (''warm'', PDict [(''model'', opt_str (warm_model s)), (''done'', PBool (warm_done s)),
                              (''keep_alive'', PStr (OLLAMA_KEEP_ALIVE cfg))]),
            (''logs'', PStr (LOG_DIR cfg))]"


definition do_GET :: "runtime \<Rightarrow> config \<Rightarrow> status_obs \<Rightarrow> request \<Rightarrow> dstate \<Rightarrow> exn + response" where
  "do_GET rt cfg ob rq s =
     (if path rq \<noteq> ''/status'' then write_json 404 (err_body ''not_found'')
      else (case stt_running rt cfg (st_stt ob) of
              Inl e \<Rightarrow> Inl e
            | Inr stt \<Rightarrow>
                (case kokoro_running rt cfg (st_kokoro ob) of
                   Inl e \<Rightarrow> Inl e
                 | Inr tts \<Rightarrow>
                     (case ollama_running rt cfg (st_ollama ob) of
                        Inl e \<Rightarrow> Inl e
                      | Inr oll \<Rightarrow> write_json 200 (status_doc cfg s stt tts oll)))))"

subsection \<open>Lease endpoints of \<open>Handler.do_POST\<close>\<close>

text \<open>
  The handlers of \<open>do_POST\<close> answer through \<open>_write_json\<close> too. Every document they write is
  built from fixed ASCII strings, booleans, configured numbers and the generated lease
  id, none of which holds a surrogate, so the encoding cannot raise there and a handler
  is written as returning the response it sends.

  \<open>f"l{int(time.time()*1000)}_{os.getpid()}_{threading.get_ident()}"\<close>: the wall clock
  in milliseconds, the process id and the identifier of the handling thread.
\<close>

definition mk_lease_id :: "int \<Rightarrow> int \<Rightarrow> int \<Rightarrow> string" where
  "mk_lease_id ms pid tid = ''l'' @ str_int ms @ ''_'' @ str_int pid @ ''_'' @ str_int tid"

text \<open>
  \<open>/lease/acquire\<close>. \<open>t_seen\<close> and \<open>t_zero\<close> are the two readings of the monotonic clock
  taken under the lock.
\<close>

definition post_lease_acquire ::
  "config \<Rightarrow> int \<Rightarrow> int \<Rightarrow> int \<Rightarrow> real \<Rightarrow> real \<Rightarrow> request \<Rightarrow> dstate \<Rightarrow> (exn + response) \<times> dstate" where
  "post_lease_acquire cfg ms pid tid t_seen t_zero rq s =
     (case read_json rq of
        Inl e \<Rightarrow> (Inl e, s)
      | Inr m \<Rightarrow>
          let lid = mk_lease_id ms pid tid;
              l = \<lparr> lease_id = lid, last_seen = t_seen, meta = py_or m (PDict []) \<rparr>;
              s1 = s\<lparr>leases := AList.update lid l (leases s)\<rparr>;
              s2 = s1\<lparr>last_zero_lease_time := t_zero\<rparr>
          in (Inr (200, PDict [(''ok'', PBool True), (''lease_id'', PStr lid),
                               (''heartbeat_s'', PFloat (DEFAULT_HEARTBEAT_S cfg)),
                               (''lease_ttl_s'', PFloat (LEASE_TTL_S cfg))]), s2))"

text \<open>\<open>str(body.get("lease_id") or "")\<close>.\<close>

definition body_lease_id :: "runtime \<Rightarrow> pyval \<Rightarrow> exn + string" where
  "body_lease_id rt body =
     (case dict_get body ''lease_id'' of
        Inl e \<Rightarrow> Inl e
      | Inr v \<Rightarrow> Inr (py_str (py_repr rt) (py_or v (PStr ''''))))"

definition post_lease_heartbeat ::
  "runtime \<Rightarrow> real \<Rightarrow> request \<Rightarrow> dstate \<Rightarrow> (exn + response) \<times> dstate" where
  "post_lease_heartbeat rt now rq s =
     (case read_json rq of
        Inl e \<Rightarrow> (Inl e, s)
      | Inr body \<Rightarrow>
          (case body_lease_id rt body of
             Inl e \<Rightarrow> (Inl e, s)
           | Inr lid \<Rightarrow>
               if lid = [] then (Inr (400, err_body ''missing_lease_id''), s)
               else (case map_of (leases s) lid of
                       None \<Rightarrow> (Inr (404, err_body ''unknown_lease''), s)
                     | Some l \<Rightarrow>
                         (Inr (200, ok_body),
                          s\<lparr>leases := AList.update lid (l\<lparr>last_seen := now\<rparr>) (leases s)\<rparr>))))"

definition post_lease_release ::
  "runtime \<Rightarrow> real \<Rightarrow> request \<Rightarrow> dstate \<Rightarrow> (exn + response) \<times> dstate" where
  "post_lease_release rt now rq s =
     (case read_json rq of
        Inl e \<Rightarrow> (Inl e, s)
      | Inr body \<Rightarrow>
          (case body_lease_id rt body of
             Inl e \<Rightarrow> (Inl e, s)
           | Inr lid \<Rightarrow>
               if lid = [] then (Inr (400, err_body ''missing_lease_id''), s)
               else
                 let s1 = s\<lparr>leases := AList.delete lid (leases s)\<rparr>;
                     s2 = (if length (leases s1) = 0 then s1\<lparr>last_zero_lease_time := now\<rparr> else s1)
                 in (Inr (200, ok_body), s2)))"

subsection \<open>Starting and stopping the managed services\<close>

text \<open>
  What the daemon does to the outside world, in the order it does it. The log files are
  taken to be writable, so \<open>_log\<close>, \<open>_tail\<close> and the opening of a log by \<open>_run_cmd\<close> do not
  raise.
\<close>

datatype action =
    SpawnStt popen
  | SpawnOllama popen
  | ComposeUp
  | ComposeStop
  | Terminate popen
  | Kill popen
  | Warm string
  | Unload string

definition nl :: string where
  "nl = [CHR 0x0A]"

text \<open>
  \<open>_wait_ready\<close>: the loop polls until a check succeeds or the deadline passes. The list
  holds what each poll made before the deadline observes; every iteration sleeps, so
  the list is finite.
\<close>

fun wait_ready :: "('w \<Rightarrow> exn + bool) \<Rightarrow> 'w list \<Rightarrow> exn + bool" where
  "wait_ready check_fn [] = Inr False"
| "wait_ready check_fn (w # ws) =
     (case check_fn w of
        Inl e \<Rightarrow> Inl e
      | Inr ok \<Rightarrow> if ok then Inr True else wait_ready check_fn ws)"

text \<open>
  What \<open>_ensure_ollama_server\<close> observes: the first probe, whether a handle it still
  holds has exited (\<open>poll()\<close> is not \<open>None\<close>), what \<open>Popen\<close> returns or raises, the probes
  of the wait loop and the tail of the log.
\<close>

record ollama_obs =
  ol_probe0 :: http_world
  ol_exited :: bool
  ol_spawn :: "exn + popen"
  ol_polls :: "http_world list"
  ol_tail :: string

definition ensure_ollama_server ::
  "runtime \<Rightarrow> config \<Rightarrow> ollama_obs \<Rightarrow> dstate \<Rightarrow> (exn + unit) \<times> dstate \<times> action list" where
  "ensure_ollama_server rt cfg ob s =
     (case ollama_running rt cfg (ol_probe0 ob) of
        Inl e \<Rightarrow> (Inl e, s, [])
      | Inr up \<Rightarrow>
          if up then (Inr (), s, [])
          else if \<not> OLLAMA_MANAGE_SERVER cfg
          then (Inl (RuntimeError ''Ollama is not running and OLLAMA_MANAGE_SERVER=0''), s, [])
          else
            let s1 = (if ollama_proc s \<noteq> None \<and> ol_exited ob
                      then s\<lparr>ollama_proc := None, ollama_managed := False\<rparr> else s)
            in (case (if ollama_proc s1 = None
                      then (case ol_spawn ob of
                              Inl e \<Rightarrow> Inl e
                            | Inr p \<Rightarrow> Inr (s1\<lparr>ollama_proc := Some p, ollama_managed := True\<rparr>,
                                            [SpawnOllama p]))
                      else Inr (s1, [])) of
                  Inl e \<Rightarrow> (Inl e, s1, [])
                | Inr (s2, acts) \<Rightarrow>
                    (case wait_ready (ollama_running rt cfg) (ol_polls ob) of
                       Inl e \<Rightarrow> (Inl e, s2, acts)
                     | Inr ok \<Rightarrow>
                         if ok then (Inr (), s2, acts)
                         else (Inl (RuntimeError (''Ollama not ready after ''
                                 @ fmt_float rt (OLLAMA_READY_TIMEOUT_S cfg) @ ''s'' @ nl @ ol_tail ob)),
                               s2, acts))))"

text \<open>
  \<open>_ensure_stt\<close>. Each iteration of its loop probes and then polls the child
  (\<open>Some rc\<close> once it has exited).
\<close>

record stt_obs =
  stt_probe0 :: http_world
  stt_exited :: bool
  stt_spawn :: "exn + popen"
  stt_polls :: "(http_world \<times> int option) list"
  stt_tail :: string

fun stt_wait ::
  "runtime \<Rightarrow> config \<Rightarrow> popen option \<Rightarrow> string \<Rightarrow> (http_world \<times> int option) list \<Rightarrow> exn + unit" where
  "stt_wait rt cfg p logtail [] =
     Inl (RuntimeError (''STT not ready after '' @ fmt_float rt (STT_READY_TIMEOUT_S cfg) @ ''s'' @ nl @ logtail))"
| "stt_wait rt cfg p logtail (wr # rest) =
     (case stt_running rt cfg (fst wr) of
        Inl e \<Rightarrow> Inl e
      | Inr up \<Rightarrow>
          if up then Inr ()
          else (case (p, snd wr) of
                  (Some h, Some rc) \<Rightarrow>
                    Inl (RuntimeError (''STT exited early rc='' @ str_int rc @ nl @ logtail))
                | _ \<Rightarrow> stt_wait rt cfg p logtail rest))"

definition ensure_stt ::
  "runtime \<Rightarrow> config \<Rightarrow> stt_obs \<Rightarrow> dstate \<Rightarrow> (exn + unit) \<times> dstate \<times> action list" where
  "ensure_stt rt cfg ob s =
     (case stt_running rt cfg (stt_probe0 ob) of
        Inl e \<Rightarrow> (Inl e, s, [])
      | Inr up \<Rightarrow>
          if up then (Inr (), s, [])
          else
            let s1 = (if stt_proc s \<noteq> None \<and> stt_exited ob then s\<lparr>stt_proc := None\<rparr> else s)
            in (case (if stt_proc s1 = None
                      then (case stt_spawn ob of
                              Inl e \<Rightarrow> Inl e
                            | Inr p \<Rightarrow> Inr (s1\<lparr>stt_proc := Some p\<rparr>, [SpawnStt p]))
                      else Inr (s1, [])) of
                  Inl e \<Rightarrow> (Inl e, s1, [])
                | Inr (s2, acts) \<Rightarrow>
                    (case stt_wait rt cfg (stt_proc s2) (stt_tail ob) (stt_polls ob) of
                       Inl e \<Rightarrow> (Inl e, s2, acts)
                     | Inr u \<Rightarrow> (Inr (), s2, acts))))"

text \<open>
  \<open>_ensure_kokoro\<close>: \<open>kk_docker\<close> says whether \<open>_docker_compose_cmd\<close> found a binary,
  \<open>kk_up_rc\<close> is the return code of \<open>compose up -d\<close> (999 when running it failed).
\<close>

record kokoro_obs =
  kk_probe0 :: "bool \<times> http_world"
  kk_docker :: bool
  kk_up_rc :: int
  kk_polls :: "(bool \<times> http_world) list"
  kk_tail :: string

definition ensure_kokoro ::
  "runtime \<Rightarrow> config \<Rightarrow> kokoro_obs \<Rightarrow> dstate \<Rightarrow> (exn + unit) \<times> dstate \<times> action list" where
  "ensure_kokoro rt cfg ob s =
     (case kokoro_running rt cfg (kk_probe0 ob) of
        Inl e \<Rightarrow> (Inl e, s, [])
      | Inr up \<Rightarrow>
          if up then (Inr (), s, [])
          else if \<not> kk_docker ob
          then (Inl (RuntimeError ''docker not found (required for Kokoro compose)''), s, [])
          else if kk_up_rc ob \<noteq> 0
          then (Inl (RuntimeError (''docker compose up failed rc='' @ str_int (kk_up_rc ob) @ nl @ kk_tail ob)),
                s, [ComposeUp])
          else (case wait_ready (kokoro_running rt cfg) (kk_polls ob) of
                  Inl e \<Rightarrow> (Inl e, s, [ComposeUp])
                | Inr ok \<Rightarrow>
                    if ok then (Inr (), s, [ComposeUp])
                    else (Inl (RuntimeError (''Kokoro not ready after ''
                            @ fmt_float rt (KOKORO_READY_TIMEOUT_S cfg) @ ''s'' @ nl @ kk_tail ob)),
                          s, [ComposeUp])))"

definition fmt_body :: "runtime \<Rightarrow> pyval option \<Rightarrow> string" where
  "fmt_body rt b = (case b of None \<Rightarrow> ''None'' | Some v \<Rightarrow> py_str (py_repr rt) v)"

definition ollama_warm :: "runtime \<Rightarrow> config \<Rightarrow> http_world \<Rightarrow> string \<Rightarrow> (exn + unit) \<times> action list" where
  "ollama_warm rt cfg w model =
     (case http_json rt (OLLAMA_GENERATE_URL cfg) w of
        Inl e \<Rightarrow> (Inl e, [])
      | Inr (code, body) \<Rightarrow>
          if code \<noteq> 200
          then (Inl (RuntimeError (''ollama warm failed code='' @ str_int (int code)
                       @ '' body='' @ fmt_body rt body)), [Warm model])
          else (Inr (), [Warm model]))"

definition ollama_unload :: "runtime \<Rightarrow> config \<Rightarrow> http_world \<Rightarrow> string \<Rightarrow> (exn + unit) \<times> action list" where
  "ollama_unload rt cfg w model =
     (if \<not> OLLAMA_MANAGE_MODEL_UNLOAD cfg then (Inr (), [])
      else (case http_json rt (OLLAMA_GENERATE_URL cfg) w of
              Inl e \<Rightarrow> (Inl e, [])
            | Inr r \<Rightarrow> (Inr (), [Unload model])))"

text \<open>
  The stop functions. \<open>graceful\<close> says whether \<open>terminate()\<close> and \<open>wait(timeout=4)\<close> returned;
  when either raises the handler calls \<open>kill()\<close>, and swallows what that raises.
\<close>

definition halt :: "bool \<Rightarrow> popen \<Rightarrow> action list" where
  "halt graceful p = (if graceful then [Terminate p] else [Terminate p, Kill p])"

definition stop_stt :: "bool \<Rightarrow> dstate \<Rightarrow> dstate \<times> action list" where
  "stop_stt graceful s =
     (let p = stt_proc s; s1 = s\<lparr>stt_proc := None\<rparr>
      in (case p of None \<Rightarrow> (s1, []) | Some h \<Rightarrow> (s1, halt graceful h)))"

definition stop_kokoro :: "bool \<Rightarrow> dstate \<Rightarrow> dstate \<times> action list" where
  "stop_kokoro docker s = (if \<not> docker then (s, []) else (s, [ComposeStop]))"

definition stop_ollama :: "bool \<Rightarrow> dstate \<Rightarrow> dstate \<times> action list" where
  "stop_ollama graceful s =
     (if \<not> ollama_managed s then (s, [])
      else
        let p = ollama_proc s; s1 = s\<lparr>ollama_proc := None, ollama_managed := False\<rparr>
        in (case p of None \<Rightarrow> (s1, []) | Some h \<Rightarrow> (s1, halt graceful h)))"

subsection \<open>The ensure pipeline\<close>

record ensure_obs =
  eo_ollama :: ollama_obs
  eo_stt :: stt_obs
  eo_kokoro :: kokoro_obs
  eo_warm :: http_world

text \<open>The trace of a run: every write of \<open>stage\<close> and every action, in program order.\<close>

datatype event = StageSet string | Did action

text \<open>\<open>if model:\<close> on a value that is \<open>None\<close> or a string.\<close>

definition requested :: "string option \<Rightarrow> bool" where
  "requested model = (case model of None \<Rightarrow> False | Some m \<Rightarrow> m \<noteq> [])"

definition ensure_all ::
  "runtime \<Rightarrow> config \<Rightarrow> ensure_obs \<Rightarrow> string option \<Rightarrow> dstate \<Rightarrow> (exn + unit) \<times> dstate \<times> event list" where
  "ensure_all rt cfg ob model s =
     (let s1 = set_stage ''ensure:ollama_server'' s;
          t1 = [StageSet ''ensure:ollama_server'']
      in (case ensure_ollama_server rt cfg (eo_ollama ob) s1 of
           (Inl e, s2, a2) \<Rightarrow> (Inl e, s2, t1 @ map Did a2)
         | (Inr u2, s2, a2) \<Rightarrow>
     (let s3 = set_stage ''ensure:stt'' s2;
          t3 = t1 @ map Did a2 @ [StageSet ''ensure:stt'']
      in (case ensure_stt rt cfg (eo_stt ob) s3 of
           (Inl e, s4, a4) \<Rightarrow> (Inl e, s4, t3 @ map Did a4)
         | (Inr u4, s4, a4) \<Rightarrow>
     (let s5 = set_stage ''ensure:kokoro'' s4;
          t5 = t3 @ map Did a4 @ [StageSet ''ensure:kokoro'']
      in (case ensure_kokoro rt cfg (eo_kokoro ob) s5 of
           (Inl e, s6, a6) \<Rightarrow> (Inl e, s6, t5 @ map Did a6)
         | (Inr u6, s6, a6) \<Rightarrow>
     (let s7 = s6\<lparr>warm_model := model, warm_done := False\<rparr>;
          t7 = t5 @ map Did a6
      in if requested model
         then
           (let s8 = set_stage ''ensure:ollama_warm'' s7;
                t8 = t7 @ [StageSet ''ensure:ollama_warm'']
            in (case ollama_warm rt cfg (eo_warm ob) (the model) of
                  (Inl e, a9) \<Rightarrow> (Inl e, s8, t8 @ map Did a9)
                | (Inr u9, a9) \<Rightarrow>
                    (Inr (), set_stage ''ready'' (s8\<lparr>warm_done := True\<rparr>),
                     t8 @ map Did a9 @ [StageSet ''ready''])))
         else (Inr (), set_stage ''ready'' s7, t7 @ [StageSet ''ready'']))))))))"

text \<open>
  The worker thread of \<open>/ensure\<close>: the \<open>try\<close> and \<open>except\<close> blocks, then the \<open>finally\<close>
  block, which takes the lock on its own.
\<close>

definition worker_body ::
  "runtime \<Rightarrow> config \<Rightarrow> ensure_obs \<Rightarrow> string option \<Rightarrow> dstate \<Rightarrow> dstate \<times> event list" where
  "worker_body rt cfg ob model s =
     (case ensure_all rt cfg ob model s of
        (Inl e, s1, tr) \<Rightarrow>
          (set_stage ''error'' (set_error (Some (str_exn e)) s1), tr @ [StageSet ''error''])
      | (Inr u, s1, tr) \<Rightarrow> (s1, tr))"

definition worker_finally :: "dstate \<Rightarrow> dstate" where
  "worker_finally s = s\<lparr>ensuring := False\<rparr>"

definition worker ::
  "runtime \<Rightarrow> config \<Rightarrow> ensure_obs \<Rightarrow> string option \<Rightarrow> dstate \<Rightarrow> dstate \<times> event list" where
  "worker rt cfg ob model s =
     (let (s1, tr) = worker_body rt cfg ob model s in (worker_finally s1, tr))"

subsection \<open>\<open>/ensure\<close> and the dispatch of \<open>Handler.do_POST\<close>\<close>

text \<open>What a request leaves behind besides its response: a worker thread, or none.\<close>

datatype spawn = NoWorker | Worker "string option"

text \<open>\<open>str(body.get("ollama_model") or "").strip() or None\<close>.\<close>

definition body_model :: "runtime \<Rightarrow> pyval \<Rightarrow> exn + string option" where
  "body_model rt body =
     (case dict_get body ''ollama_model'' of
        Inl e \<Rightarrow> Inl e
      | Inr v \<Rightarrow>
          let m = strip (py_str (py_repr rt) (py_or v (PStr [])))
          in Inr (if m = [] then None else Some m))"

definition ensuring_body :: pyval where
  "ensuring_body = PDict [(''ok'', PBool True), (''ensuring'', PBool True)]"

definition post_ensure ::
  "runtime \<Rightarrow> request \<Rightarrow> dstate \<Rightarrow> (exn + response) \<times> dstate \<times> spawn" where
  "post_ensure rt rq s =
     (case read_json rq of
        Inl e \<Rightarrow> (Inl e, s, NoWorker)
      | Inr body \<Rightarrow>
          (case body_model rt body of
             Inl e \<Rightarrow> (Inl e, s, NoWorker)
           | Inr model \<Rightarrow>
               if ensuring s then (Inr (202, ensuring_body), s, NoWorker)
               else (Inr (202, ensuring_body),
                     s\<lparr>ensuring := True, last_error := None, stage := ''starting''\<rparr>,
                     Worker model)))"

text \<open>
  The readings a handler takes while it runs: the wall clock in milliseconds, the pid,
  the thread identifier, and the monotonic clock (read twice by \<open>/lease/acquire\<close>, once
  by the other endpoints).
\<close>

record clock_obs =
  wall_ms :: int
  proc_id :: int
  thread_id :: int
  mono1 :: real
  mono2 :: real

definition do_POST ::
  "runtime \<Rightarrow> config \<Rightarrow> clock_obs \<Rightarrow> request \<Rightarrow> dstate \<Rightarrow> (exn + response) \<times> dstate \<times> spawn" where
  "do_POST rt cfg ck rq s =
     (if path rq = ''/lease/acquire''
      then (let (r, s1) = post_lease_acquire cfg (wall_ms ck) (proc_id ck) (thread_id ck)
                            (mono1 ck) (mono2 ck) rq s
            in (r, s1, NoWorker))
      else if path rq = ''/lease/heartbeat''
      then (let (r, s1) = post_lease_heartbeat rt (mono1 ck) rq s in (r, s1, NoWorker))
      else if path rq = ''/lease/release''
      then (let (r, s1) = post_lease_release rt (mono1 ck) rq s in (r, s1, NoWorker))
      else if path rq = ''/ensure'' then post_ensure rt rq s
      else (Inr (404, err_body ''not_found''), s, NoWorker))"

subsection \<open>The reaper and shutdown\<close>

text \<open>
  The part of one iteration of \<open>_reaper_thread\<close> that runs under the lock. \<open>now\<close> is the
  clock reading the thread took before it asked for the lock, so it may be older than
  readings other threads have stored in the meantime. The stale keys are collected,
  then popped one by one; both tests compare a difference of floats, \<open>fsub\<close>, with a
  configured float. It returns \<open>do_shutdown\<close> and the \<open>warm_model\<close> it read.
\<close>

definition expire ::
  "runtime \<Rightarrow> config \<Rightarrow> real \<Rightarrow> (string \<times> lease) list \<Rightarrow> (string \<times> lease) list" where
  "expire rt cfg now ls =
     (let stale = map fst (filter (\<lambda>kv. fsub rt now (last_seen (snd kv)) > LEASE_TTL_S cfg) ls)
      in fold AList.delete stale ls)"

definition reaper_tick ::
  "runtime \<Rightarrow> config \<Rightarrow> real \<Rightarrow> dstate \<Rightarrow> bool \<times> string option \<times> dstate" where
  "reaper_tick rt cfg now s =
     (let s1 = s\<lparr>leases := expire rt cfg now (leases s)\<rparr>;
          lease_count = length (leases s1)
      in if lease_count = 0
         then (fsub rt now (last_zero_lease_time s1) \<ge> IDLE_TIMEOUT_S cfg, warm_model s1, s1)
         else (False, warm_model s1, s1\<lparr>last_zero_lease_time := now\<rparr>))"

text \<open>
  The teardown, outside the lock: the \<open>try\<close> block (an exception ends it and is logged),
  then the reset under the lock at a new clock reading.
\<close>

record teardown_obs =
  td_unload :: http_world
  td_stt_graceful :: bool
  td_docker :: bool
  td_ollama_graceful :: bool

definition idle_teardown ::
  "runtime \<Rightarrow> config \<Rightarrow> teardown_obs \<Rightarrow> string option \<Rightarrow> dstate \<Rightarrow> dstate \<times> action list" where
  "idle_teardown rt cfg ob wm s =
     (case (if requested wm then ollama_unload rt cfg (td_unload ob) (the wm) else (Inr (), [])) of
        (Inl e, a0) \<Rightarrow> (s, a0)
      | (Inr u, a0) \<Rightarrow>
          let (s1, a1) = stop_stt (td_stt_graceful ob) s;
              (s2, a2) = stop_kokoro (td_docker ob) s1;
              (s3, a3) = stop_ollama (td_ollama_graceful ob) s2
          in (s3, a0 @ a1 @ a2 @ a3))"

definition reaper_reset :: "real \<Rightarrow> dstate \<Rightarrow> dstate" where
  "reaper_reset now s = s\<lparr>last_zero_lease_time := now, stage := ''idle'', warm_done := False\<rparr>"

text \<open>\<open>_shutdown\<close>: every step is tried on its own.\<close>

definition shutdown ::
  "runtime \<Rightarrow> config \<Rightarrow> teardown_obs \<Rightarrow> dstate \<Rightarrow> dstate \<times> action list" where
  "shutdown rt cfg ob s =
     (let s0 = s\<lparr>shutdown_flag := True\<rparr>;
          m = warm_model s0;
          a0 = (if requested m then snd (ollama_unload rt cfg (td_unload ob) (the m)) else []);
          (s1, a1) = stop_stt (td_stt_graceful ob) s0;
          (s2, a2) = stop_kokoro (td_docker ob) s1;
          (s3, a3) = stop_ollama (td_ollama_graceful ob) s2
      in (s3, a0 @ a1 @ a2 @ a3))"

subsection \<open>The daemon as a system of threads\<close>

text \<open>
  The threads share the state; what each does under the lock is one step. A worker
  thread is admitted by \<open>/ensure\<close>, runs its \<open>try\<close>/\<open>except\<close> blocks and then its \<open>finally\<close>
  block. The reaper sleeps, and after a tick that decides to shut down it stops the
  services and then resets the state. \<open>effects\<close> is the log of every write of \<open>stage\<close>
  after start-up and of every action, in order.
\<close>

datatype wthread = Admitted "string option" | Finishing

datatype rthread = Sleeping | Stopping "string option" | Resetting

record sys =
  st :: dstate
  workers :: "wthread list"
  reaper :: rthread
  effects :: "event list"

definition init_sys :: "real \<Rightarrow> sys" where
  "init_sys t0 = \<lparr> st = init_state t0, workers = [], reaper = Sleeping, effects = [] \<rparr>"

datatype op =
    Post clock_obs request
  | WorkerBody nat ensure_obs
  | WorkerFinally nat
  | Tick real
  | Teardown teardown_obs
  | Reset real
  | Shutdown teardown_obs

fun sys_step :: "runtime \<Rightarrow> config \<Rightarrow> op \<Rightarrow> sys \<Rightarrow> sys" where
  "sys_step rt cfg (Post ck rq) \<sigma> =
     (case do_POST rt cfg ck rq (st \<sigma>) of
        (r, s1, NoWorker) \<Rightarrow> \<sigma>\<lparr>st := s1\<rparr>
      | (r, s1, Worker m) \<Rightarrow>
          \<sigma>\<lparr>st := s1, workers := workers \<sigma> @ [Admitted m],
            effects := effects \<sigma> @ [StageSet ''starting'']\<rparr>)"
| "sys_step rt cfg (WorkerBody i ob) \<sigma> =
     (if i < length (workers \<sigma>)
      then (case workers \<sigma> ! i of
              Admitted m \<Rightarrow>
                (let (s1, tr) = worker_body rt cfg ob m (st \<sigma>)
                 in \<sigma>\<lparr>st := s1, workers := (workers \<sigma>)[i := Finishing],
                      effects := effects \<sigma> @ tr\<rparr>)
            | Finishing \<Rightarrow> \<sigma>)
      else \<sigma>)"
| "sys_step rt cfg (WorkerFinally i) \<sigma> =
     (if i < length (workers \<sigma>) \<and> workers \<sigma> ! i = Finishing
      then \<sigma>\<lparr>st := worker_finally (st \<sigma>),
             workers := take i (workers \<sigma>) @ drop (Suc i) (workers \<sigma>)\<rparr>
      else \<sigma>)"
| "sys_step rt cfg (Tick now) \<sigma> =
     (if reaper \<sigma> = Sleeping
      then (let (d, wm, s1) = reaper_tick rt cfg now (st \<sigma>)
            in \<sigma>\<lparr>st := s1, reaper := (if d then Stopping wm else Sleeping)\<rparr>)
      else \<sigma>)"
| "sys_step rt cfg (Teardown ob) \<sigma> =
     (case reaper \<sigma> of
        Stopping wm \<Rightarrow>
          (let (s1, acts) = idle_teardown rt cfg ob wm (st \<sigma>)
           in \<sigma>\<lparr>st := s1, reaper := Resetting, effects := effects \<sigma> @ map Did acts\<rparr>)
      | _ \<Rightarrow> \<sigma>)"
| "sys_step rt cfg (Reset now) \<sigma> =
     (if reaper \<sigma> = Resetting
      then \<sigma>\<lparr>st := reaper_reset now (st \<sigma>), reaper := Sleeping,
             effects := effects \<sigma> @ [StageSet ''idle'']\<rparr>
      else \<sigma>)"
| "sys_step rt cfg (Shutdown ob) \<sigma> =
     (let (s1, acts) = shutdown rt cfg ob (st \<sigma>)
      in \<sigma>\<lparr>st := s1, effects := effects \<sigma> @ map Did acts\<rparr>)"

definition run :: "runtime \<Rightarrow> config \<Rightarrow> op list \<Rightarrow> sys \<Rightarrow> sys" where
  "run rt cfg ops \<sigma> = fold (sys_step rt cfg) ops \<sigma>"

subsection \<open>Concrete inputs\<close>

text \<open>
  The default configuration of the module, a runtime that accepts every URL, and the
  requests and observations used to run the model on concrete inputs. The runtime
  subtracts exactly: the clock readings it is used with below are integers and
  fractions with denominator 2, 4 or 8, all of them floats, and so are their
  differences, on which binary64 subtraction does not round.
\<close>

definition cfg0 :: config where
  "cfg0 = \<lparr> IDLE_TIMEOUT_S = 25, LEASE_TTL_S = 15, DEFAULT_HEARTBEAT_S = 5,
            STT_HEALTH_URL = ''http://127.0.0.1:8001/health'', STT_READY_TIMEOUT_S = 90,
            KOKORO_BASE_URL = ''http://127.0.0.1:8880'', KOKORO_READY_TIMEOUT_S = 120,
            OLLAMA_API_BASE = ''http://127.0.0.1:11434/api'', OLLAMA_MANAGE_SERVER = True,
            OLLAMA_MANAGE_MODEL_UNLOAD = True, OLLAMA_READY_TIMEOUT_S = 30,
            OLLAMA_KEEP_ALIVE = ''5m'', LOG_DIR = ''.daemon'' \<rparr>"

definition rt0 :: runtime where
  "rt0 = \<lparr> py_repr = (\<lambda>v. ''<repr>''), fmt_float = (\<lambda>r. ''<float>''),
           url_accepted = (\<lambda>u. True), fsub = (\<lambda>a b. a - b) \<rparr>"

definition rq_json :: "string \<Rightarrow> (string \<times> pyval) list \<Rightarrow> request" where
  "rq_json p kvs = \<lparr> path = p, content_length = Digits 2, json_body = Some (PDict kvs) \<rparr>"

definition ck0 :: "int \<Rightarrow> int \<Rightarrow> real \<Rightarrow> clock_obs" where
  "ck0 ms tid now = \<lparr> wall_ms = ms, proc_id = 42, thread_id = tid, mono1 = now, mono2 = now \<rparr>"

text \<open>Probes that find the three services healthy, and observations built from them.\<close>

definition up_stt :: http_world where
  "up_stt = Status 200 (RawText (Some (PDict [(''ok'', PBool True)])))"

definition up_kokoro :: "bool \<times> http_world" where
  "up_kokoro = (True, Status 200 (RawText (Some (PDict [(''voices'', PList [])]))))"

definition up_ollama :: http_world where
  "up_ollama = Status 200 (RawText (Some (PDict [(''version'', PStr ''0.5.1'')])))"

definition ob_up :: ensure_obs where
  "ob_up =
     \<lparr> eo_ollama = \<lparr> ol_probe0 = up_ollama, ol_exited = False, ol_spawn = Inr 0, ol_polls = [],
                     ol_tail = [] \<rparr>,
       eo_stt = \<lparr> stt_probe0 = up_stt, stt_exited = False, stt_spawn = Inr 0, stt_polls = [],
                  stt_tail = [] \<rparr>,
       eo_kokoro = \<lparr> kk_probe0 = up_kokoro, kk_docker = True, kk_up_rc = 0, kk_polls = [],
                     kk_tail = [] \<rparr>,
       eo_warm = Status 200 (RawText (Some (PDict [(''done'', PBool True)]))) \<rparr>"

text \<open>
  A cold start in which the STT child, started as pid 4711, exits with code 3 before it
  answers its health probe.
\<close>

definition ob_stt_exits :: ensure_obs where
  "ob_stt_exits =
     ob_up\<lparr> eo_stt := \<lparr> stt_probe0 = Fails, stt_exited = False, stt_spawn = Inr 4711,
                         stt_polls = [(Fails, Some 3)], stt_tail = ''Traceback'' \<rparr> \<rparr>"

definition td0 :: teardown_obs where
  "td0 = \<lparr> td_unload = Fails, td_stt_graceful = True, td_docker = True, td_ollama_graceful = True \<rparr>"




text \<open>
  Heartbeats whose body is valid JSON but not an object, \<open>[1]\<close> and \<open>null\<close>, and one whose
  \<open>Content-Length\<close> header is not an integer.
\<close>

definition rq_array :: request where
  "rq_array = \<lparr> path = ''/lease/heartbeat'', content_length = Digits 3,
                 json_body = Some (PList [PInt 1]) \<rparr>"

definition rq_null :: request where
  "rq_null = \<lparr> path = ''/lease/heartbeat'', content_length = Digits 4, json_body = Some PNone \<rparr>"

definition rq_badlen :: request where
  "rq_badlen = \<lparr> path = ''/lease/heartbeat'', content_length = Garbage, json_body = None \<rparr>"

subsection \<open>Reading traces\<close>

text \<open>The values written to \<open>stage\<close> along a trace, in order.\<close>

fun stages_of :: "event list \<Rightarrow> string list" where
  "stages_of [] = []"
| "stages_of (StageSet v # es) = v # stages_of es"
| "stages_of (Did a # es) = stages_of es"

text \<open>The order in which \<open>_ensure_all\<close> names its steps.\<close>

definition pipeline_stages :: "string option \<Rightarrow> string list" where
  "pipeline_stages model =
     [''ensure:ollama_server'', ''ensure:stt'', ''ensure:kokoro'']
     @ (if requested model then [''ensure:ollama_warm''] else []) @ [''ready'']"

text \<open>
  The stage during which a start-up action belongs, and the check that every start-up
  action of a trace happens while \<open>stage\<close> names its step.
\<close>

fun stage_of_action :: "action \<Rightarrow> string" where
  "stage_of_action (SpawnOllama p) = ''ensure:ollama_server''"
| "stage_of_action (SpawnStt p) = ''ensure:stt''"
| "stage_of_action ComposeUp = ''ensure:kokoro''"
| "stage_of_action (Warm m) = ''ensure:ollama_warm''"
| "stage_of_action a = ''''"

fun well_staged :: "string \<Rightarrow> event list \<Rightarrow> bool" where
  "well_staged cur [] = True"
| "well_staged cur (StageSet v # es) = well_staged v es"
| "well_staged cur (Did a # es) = (stage_of_action a = cur \<and> well_staged cur es)"

text \<open>The strings the code writes to \<open>stage\<close>, and the strings the specification lists.\<close>

definition code_stages :: "string set" where
  "code_stages = {''idle'', ''starting'', ''ensure:ollama_server'', ''ensure:stt'', ''ensure:kokoro'',
                  ''ensure:ollama_warm'', ''ready'', ''error''}"

definition spec_stages :: "string set" where
  "spec_stages = {''idle'', ''starting'', ''ensure:llm_server'', ''ensure:stt'', ''ensure:tts'',
                  ''ensure:llm_warm'', ''ready'', ''error''}"


text \<open>
  Ownership along a log. \<open>owned_procs P\<close> holds when every \<open>terminate\<close> and \<open>kill\<close> hits a
  child the daemon started earlier in the log (or one of \<open>P\<close>). \<open>owned_all P up\<close> asks the
  same of the TTS containers: \<open>compose stop\<close> only after the daemon ran \<open>compose up\<close>.
\<close>

fun owned_procs :: "popen set \<Rightarrow> event list \<Rightarrow> bool" where
  "owned_procs P [] = True"
| "owned_procs P (StageSet v # es) = owned_procs P es"
| "owned_procs P (Did (SpawnStt p) # es) = owned_procs (insert p P) es"
| "owned_procs P (Did (SpawnOllama p) # es) = owned_procs (insert p P) es"
| "owned_procs P (Did (Terminate p) # es) = (p \<in> P \<and> owned_procs P es)"
| "owned_procs P (Did (Kill p) # es) = (p \<in> P \<and> owned_procs P es)"
| "owned_procs P (Did a # es) = owned_procs P es"

fun owned_all :: "popen set \<Rightarrow> bool \<Rightarrow> event list \<Rightarrow> bool" where
  "owned_all P up [] = True"
| "owned_all P up (StageSet v # es) = owned_all P up es"
| "owned_all P up (Did (SpawnStt p) # es) = owned_all (insert p P) up es"
| "owned_all P up (Did (SpawnOllama p) # es) = owned_all (insert p P) up es"
| "owned_all P up (Did ComposeUp # es) = owned_all P True es"
| "owned_all P up (Did ComposeStop # es) = (up \<and> owned_all P up es)"
| "owned_all P up (Did (Terminate p) # es) = (p \<in> P \<and> owned_all P up es)"
| "owned_all P up (Did (Kill p) # es) = (p \<in> P \<and> owned_all P up es)"
| "owned_all P up (Did a # es) = owned_all P up es"

text \<open>The children a log starts, and the children it terminates or kills.\<close>

definition spawned :: "event list \<Rightarrow> popen set" where
  "spawned es = {p. Did (SpawnStt p) \<in> set es \<or> Did (SpawnOllama p) \<in> set es}"

definition halted :: "event list \<Rightarrow> popen set" where
  "halted es = {p. Did (Terminate p) \<in> set es \<or> Did (Kill p) \<in> set es}"

subsection \<open>Clock readings along a run\<close>

text \<open>
  The readings of the monotonic clock a step takes, in order. The handlers read the
  clock under the lock; the reaper reads it just before it takes the lock.
\<close>

fun op_readings :: "op \<Rightarrow> real list" where
  "op_readings (Post ck rq) = [mono1 ck, mono2 ck]"
| "op_readings (Tick now) = [now]"
| "op_readings (Reset now) = [now]"
| "op_readings other = []"

text \<open>
  What a step writes to \<open>last_zero_lease_time\<close>, if it writes it: \<open>/lease/acquire\<close> its
  second reading, a \<open>/lease/release\<close> that leaves the map empty its reading, a tick of
  the reaper that still finds a lease the reading it took before the lock, the reset
  after a teardown its reading. \<open>stamps\<close> lists the values written along a run, in the
  order in which the steps held the lock.
\<close>

fun stamp :: "runtime \<Rightarrow> config \<Rightarrow> op \<Rightarrow> sys \<Rightarrow> real option" where
  "stamp rt cfg (Post ck rq) \<sigma> =
     (if path rq = ''/lease/acquire''
      then (case read_json rq of Inl e \<Rightarrow> None | Inr m \<Rightarrow> Some (mono2 ck))
      else if path rq = ''/lease/heartbeat'' then None
      else if path rq = ''/lease/release''
      then (case read_json rq of
              Inl e \<Rightarrow> None
            | Inr body \<Rightarrow>
                (case body_lease_id rt body of
                   Inl e \<Rightarrow> None
                 | Inr lid \<Rightarrow>
                     if lid \<noteq> [] \<and> AList.delete lid (leases (st \<sigma>)) = []
                     then Some (mono1 ck) else None))
      else None)"
| "stamp rt cfg (Tick now) \<sigma> =
     (if reaper \<sigma> = Sleeping \<and> expire rt cfg now (leases (st \<sigma>)) \<noteq> [] then Some now else None)"
| "stamp rt cfg (Reset now) \<sigma> = (if reaper \<sigma> = Resetting then Some now else None)"
| "stamp rt cfg other \<sigma> = None"

fun stamps :: "runtime \<Rightarrow> config \<Rightarrow> op list \<Rightarrow> sys \<Rightarrow> real list" where
  "stamps rt cfg [] \<sigma> = []"
| "stamps rt cfg (x # xs) \<sigma> =
     (case stamp rt cfg x \<sigma> of None \<Rightarrow> [] | Some v \<Rightarrow> [v])
     @ stamps rt cfg xs (sys_step rt cfg x \<sigma>)"

text \<open>
  The lease map over time: after every step that reads the clock, the time of its last
  reading and the map it leaves. \<open>registry_at\<close> is the map in force at time \<open>t\<close>, the one
  left by the last step at or before \<open>t\<close>.
\<close>

fun timeline :: "runtime \<Rightarrow> config \<Rightarrow> op list \<Rightarrow> sys \<Rightarrow> (real \<times> (string \<times> lease) list) list" where
  "timeline rt cfg [] \<sigma> = []"
| "timeline rt cfg (x # xs) \<sigma> =
     (let \<sigma>1 = sys_step rt cfg x \<sigma>
      in (if op_readings x = [] then [] else [(last (op_readings x), leases (st \<sigma>1))])
         @ timeline rt cfg xs \<sigma>1)"

definition registry_at ::
  "(real \<times> (string \<times> lease) list) list \<Rightarrow> (string \<times> lease) list \<Rightarrow> real \<Rightarrow> (string \<times> lease) list" where
  "registry_at snaps ls0 t =
     (case filter (\<lambda>x. fst x \<le> t) snaps of [] \<Rightarrow> ls0 | x # xs \<Rightarrow> snd (last (x # xs)))"

text \<open>A configuration with \<open>DAEMON_IDLE_TIMEOUT_S=1\<close> and \<open>DAEMON_LEASE_TTL_S=1\<close>.\<close>

definition cfg1 :: config where
  "cfg1 = cfg0\<lparr>IDLE_TIMEOUT_S := 1, LEASE_TTL_S := 1\<rparr>"

text \<open>
  A configuration with \<open>DAEMON_IDLE_TIMEOUT_S=0.5\<close> and \<open>DAEMON_LEASE_TTL_S=0.125\<close>.
\<close>

definition cfg2 :: config where
  "cfg2 = cfg0\<lparr>IDLE_TIMEOUT_S := 1/2, LEASE_TTL_S := 1/8\<rparr>"

text \<open>The lease id a response to \<open>/lease/acquire\<close> carries.\<close>

definition acquired_id :: "exn + response \<Rightarrow> string option" where
  "acquired_id r =
     (case r of
        Inr (c, PDict kvs) \<Rightarrow> (case map_of kvs ''lease_id'' of Some (PStr l) \<Rightarrow> Some l | _ \<Rightarrow> None)
      | _ \<Rightarrow> None)"

section \<open>Properties\<close>

subsection \<open>Decimal strings and lease ids\<close>

lemma str_nat_ne: "str_nat n \<noteq> []"
  by (subst str_nat.simps) simp

lemma digit_char_inj: "a < 10 \<Longrightarrow> b < 10 \<Longrightarrow> digit_char a = digit_char b \<Longrightarrow> a = b"
  by (simp add: digit_char_def char_of_eq_iff take_bit_eq_mod)

lemma digit_char_not_sep: "d < 10 \<Longrightarrow> digit_char d \<noteq> CHR ''_'' \<and> digit_char d \<noteq> CHR ''-''"
proof -
  assume "d < 10"
  then have "d \<in> {0,1,2,3,4,5,6,7,8,9}" by auto
  then show ?thesis by (auto simp: digit_char_def char_of_eq_iff take_bit_eq_mod)
qed

lemma str_nat_chars: "c \<in> set (str_nat n) \<Longrightarrow> \<exists>d<10. c = digit_char d"
proof (induction n rule: str_nat.induct)
  case (1 n)
  show ?case
  proof (cases "n < 10")
    case True
    with "1.prems" show ?thesis by (subst (asm) str_nat.simps) auto
  next
    case False
    with "1.prems" have "c \<in> set (str_nat (n div 10)) \<or> c = digit_char (n mod 10)"
      by (subst (asm) str_nat.simps) auto
    then show ?thesis
    proof
      assume "c \<in> set (str_nat (n div 10))"
      with "1.IH" False show ?thesis by simp
    next
      assume "c = digit_char (n mod 10)"
      moreover have "n mod 10 < 10" by simp
      ultimately show ?thesis by blast
    qed
  qed
qed

lemma str_nat_inj: "str_nat n = str_nat m \<Longrightarrow> n = m"
proof (induction n arbitrary: m rule: str_nat.induct)
  case (1 n)
  show ?case
  proof (cases "n < 10")
    case n_small: True
    show ?thesis
    proof (cases "m < 10")
      case True
      with n_small "1.prems" show ?thesis
        by (simp add: str_nat.simps [of n] str_nat.simps [of m] digit_char_inj)
    next
      case False
      with n_small "1.prems" have "[digit_char n] = str_nat (m div 10) @ [digit_char (m mod 10)]"
        by (simp add: str_nat.simps [of n] str_nat.simps [of m])
      then have "str_nat (m div 10) = []" by simp
      then show ?thesis by (simp add: str_nat_ne)
    qed
  next
    case n_big: False
    show ?thesis
    proof (cases "m < 10")
      case True
      with n_big "1.prems" have "str_nat (n div 10) @ [digit_char (n mod 10)] = [digit_char m]"
        by (simp add: str_nat.simps [of n] str_nat.simps [of m])
      then have "str_nat (n div 10) = []" by simp
      then show ?thesis by (simp add: str_nat_ne)
    next
      case False
      with n_big "1.prems" have eq: "str_nat (n div 10) = str_nat (m div 10)"
        and d: "digit_char (n mod 10) = digit_char (m mod 10)"
        by (simp_all add: str_nat.simps [of n] str_nat.simps [of m])
      from "1.IH" [OF n_big eq] have "n div 10 = m div 10" .
      moreover from d have "n mod 10 = m mod 10" by (intro digit_char_inj) simp_all
      ultimately show ?thesis by (metis div_mult_mod_eq)
    qed
  qed
qed

lemma str_int_inj: "str_int i = str_int j \<Longrightarrow> i = j"
proof -
  assume eq: "str_int i = str_int j"
  have no_minus: "\<And>n. hd (str_nat n) \<noteq> CHR ''-''"
  proof -
    fix n
    have "hd (str_nat n) \<in> set (str_nat n)" by (simp add: str_nat_ne)
    then obtain d where "d < 10" "hd (str_nat n) = digit_char d" using str_nat_chars by blast
    then show "hd (str_nat n) \<noteq> CHR ''-''" using digit_char_not_sep by simp
  qed
  show ?thesis
  proof (cases "i < 0")
    case i_neg: True
    show ?thesis
    proof (cases "j < 0")
      case True
      with i_neg eq have "str_nat (nat (- i)) = str_nat (nat (- j))" by (simp add: str_int_def)
      then have "nat (- i) = nat (- j)" by (rule str_nat_inj)
      with i_neg True show ?thesis by simp
    next
      case False
      with i_neg eq have "CHR ''-'' # str_nat (nat (- i)) = str_nat (nat j)" by (simp add: str_int_def)
      then have "hd (str_nat (nat j)) = CHR ''-''" by (metis list.sel(1))
      with no_minus show ?thesis by blast
    qed
  next
    case i_pos: False
    show ?thesis
    proof (cases "j < 0")
      case True
      with i_pos eq have "str_nat (nat i) = CHR ''-'' # str_nat (nat (- j))" by (simp add: str_int_def)
      then have "hd (str_nat (nat i)) = CHR ''-''" by (metis list.sel(1))
      with no_minus show ?thesis by blast
    next
      case False
      with i_pos eq have "str_nat (nat i) = str_nat (nat j)" by (simp add: str_int_def)
      then have "nat i = nat j" by (rule str_nat_inj)
      with i_pos False show ?thesis by simp
    qed
  qed
qed

lemma str_int_no_sep: "CHR ''_'' \<notin> set (str_int i)"
proof
  assume "CHR ''_'' \<in> set (str_int i)"
  then obtain n where "CHR ''_'' \<in> set (str_nat n)"
    by (auto simp: str_int_def split: if_splits)
  then obtain d where d: "d < 10" "CHR ''_'' = digit_char d" using str_nat_chars by blast
  from digit_char_not_sep [OF d(1)] d(2) show False by simp
qed

lemma split_unique:
  "u \<notin> set a \<Longrightarrow> u \<notin> set a' \<Longrightarrow> a @ u # r = a' @ u # r' \<Longrightarrow> a = a' \<and> r = r'"
proof (induction a arbitrary: a')
  case Nil
  then show ?case by (cases a') auto
next
  case (Cons x a)
  then show ?case by (cases a') auto
qed

lemma split_at_sep:
  assumes "str_int a @ CHR ''_'' # r = str_int a' @ CHR ''_'' # r'"
  shows "a = a' \<and> r = r'"
proof -
  have "str_int a = str_int a' \<and> r = r'"
    using split_unique [OF str_int_no_sep str_int_no_sep assms] .
  then show ?thesis by (simp add: str_int_inj)
qed

lemma mk_lease_id_inj:
  "mk_lease_id ms pid tid = mk_lease_id ms' pid' tid' \<longleftrightarrow> ms = ms' \<and> pid = pid' \<and> tid = tid'"
proof
  assume "mk_lease_id ms pid tid = mk_lease_id ms' pid' tid'"
  then have e1: "str_int ms @ CHR ''_'' # (str_int pid @ CHR ''_'' # str_int tid)
               = str_int ms' @ CHR ''_'' # (str_int pid' @ CHR ''_'' # str_int tid')"
    by (simp add: mk_lease_id_def)
  from split_at_sep [OF e1] have a: "ms = ms'"
    and e2: "str_int pid @ CHR ''_'' # str_int tid = str_int pid' @ CHR ''_'' # str_int tid'"
    by simp_all
  from split_at_sep [OF e2] have "pid = pid'" and "str_int tid = str_int tid'" by simp_all
  with a show "ms = ms' \<and> pid = pid' \<and> tid = tid'" by (simp add: str_int_inj)
next
  assume "ms = ms' \<and> pid = pid' \<and> tid = tid'"
  then show "mk_lease_id ms pid tid = mk_lease_id ms' pid' tid'" by simp
qed

subsection \<open>The lease endpoints\<close>

lemma update_present_keys:
  "map_of al k = Some v \<Longrightarrow> map fst (AList.update k v' al) = map fst al"
  by (induction al) (auto split: if_splits)

text \<open>
  A heartbeat whose body the handler reads as a JSON object, which is the case for an
  object, for no body and for bytes that are not JSON: with a missing or empty
  \<open>lease_id\<close> the answer is 400 \<open>missing_lease_id\<close>; with an id that is not in the lease
  map it is 404 \<open>unknown_lease\<close>; in both cases the state is unchanged, so the id is not
  inserted. With an id in the map the answer is 200 \<open>{ok: true}\<close>, the map keeps its
  keys, only that lease changes, and of it only \<open>last_seen\<close>, which becomes the reading
  of the clock. No worker thread is started.
\<close>

lemma heartbeat_on_objects:
  assumes "path rq = ''/lease/heartbeat''"
    and "read_json rq = Inr (PDict kvs)"
    and "body_lease_id rt (PDict kvs) = Inr lid"
  shows "(map_of kvs ''lease_id'' = None \<or> map_of kvs ''lease_id'' = Some (PStr []) \<longrightarrow> lid = []) \<and>
     (lid = [] \<longrightarrow>
        do_POST rt cfg ck rq s = (Inr (400, err_body ''missing_lease_id''), s, NoWorker)) \<and>
     (lid \<noteq> [] \<and> map_of (leases s) lid = None \<longrightarrow>
        do_POST rt cfg ck rq s = (Inr (404, err_body ''unknown_lease''), s, NoWorker)) \<and>
     (\<forall>l. lid \<noteq> [] \<and> map_of (leases s) lid = Some l \<longrightarrow>
        (\<exists>s'. do_POST rt cfg ck rq s = (Inr (200, ok_body), s', NoWorker) \<and>
              s' = s\<lparr>leases := leases s'\<rparr> \<and>
              map fst (leases s') = map fst (leases s) \<and>
              map_of (leases s') = (map_of (leases s))(lid \<mapsto> l\<lparr>last_seen := mono1 ck\<rparr>)))"
proof (intro conjI allI impI)
  assume "map_of kvs ''lease_id'' = None \<or> map_of kvs ''lease_id'' = Some (PStr [])"
  with assms(3) show "lid = []"
    by (auto simp: body_lease_id_def dict_get_def py_or_def py_str_def)
next
  assume "lid = []"
  with assms show "do_POST rt cfg ck rq s = (Inr (400, err_body ''missing_lease_id''), s, NoWorker)"
    by (simp add: do_POST_def post_lease_heartbeat_def)
next
  assume "lid \<noteq> [] \<and> map_of (leases s) lid = None"
  with assms show "do_POST rt cfg ck rq s = (Inr (404, err_body ''unknown_lease''), s, NoWorker)"
    by (simp add: do_POST_def post_lease_heartbeat_def)
next
  fix l
  assume h: "lid \<noteq> [] \<and> map_of (leases s) lid = Some l"
  let ?s' = "s\<lparr>leases := AList.update lid (l\<lparr>last_seen := mono1 ck\<rparr>) (leases s)\<rparr>"
  from h assms have "do_POST rt cfg ck rq s = (Inr (200, ok_body), ?s', NoWorker)"
    by (simp add: do_POST_def post_lease_heartbeat_def)
  moreover have "?s' = s\<lparr>leases := leases ?s'\<rparr>" by simp
  moreover from h have "map fst (leases ?s') = map fst (leases s)"
    by (simp add: update_present_keys)
  moreover have "map_of (leases ?s') = (map_of (leases s))(lid \<mapsto> l\<lparr>last_seen := mono1 ck\<rparr>)"
    by (simp add: update_conv')
  ultimately show "\<exists>s'. do_POST rt cfg ck rq s = (Inr (200, ok_body), s', NoWorker) \<and>
              s' = s\<lparr>leases := leases s'\<rparr> \<and>
              map fst (leases s') = map fst (leases s) \<and>
              map_of (leases s') = (map_of (leases s))(lid \<mapsto> l\<lparr>last_seen := mono1 ck\<rparr>)"
    by blast
qed

lemma heartbeat_unknown_id:
  "do_POST rt0 cfg0 (ck0 9 1 7) (rq_json ''/lease/heartbeat'' [(''lease_id'', PStr ''l9_42_1'')])
       (init_state 0)
     = (Inr (404, err_body ''unknown_lease''), init_state 0, NoWorker)"
proof -
  have 0: "path (rq_json ''/lease/heartbeat'' [(''lease_id'', PStr ''l9_42_1'')]) = ''/lease/heartbeat''"
    by (simp add: rq_json_def)
  have 1: "read_json (rq_json ''/lease/heartbeat'' [(''lease_id'', PStr ''l9_42_1'')])
             = Inr (PDict [(''lease_id'', PStr ''l9_42_1'')])"
    by (simp add: read_json_def rq_json_def)
  have 2: "body_lease_id rt0 (PDict [(''lease_id'', PStr ''l9_42_1'')]) = Inr ''l9_42_1''"
    by (simp add: body_lease_id_def dict_get_def py_or_def py_str_def)
  have 3: "''l9_42_1'' \<noteq> [] \<and> map_of (leases (init_state 0)) ''l9_42_1'' = None"
    by (simp add: init_state_def)
  from heartbeat_on_objects [OF 0 1 2, of cfg0 "ck0 9 1 7" "init_state 0"] 3 show ?thesis by blast
qed

text \<open>
  C6. A heartbeat without a \<open>lease_id\<close> is to be answered with 400 \<open>missing_lease_id\<close>.
  The code does not do so for every such request. \<open>_read_json\<close> is declared to return a
  dict and returns \<open>{}\<close> for no body and for bytes that \<open>json.loads\<close> rejects, but it
  returns what \<open>json.loads\<close> gives for any body that is JSON, and it converts the
  \<open>Content-Length\<close> header outside the \<open>try\<close> block. So a heartbeat whose body is \<open>[1]\<close>
  or \<open>null\<close>, or whose \<open>Content-Length\<close> is not an integer, carries no \<open>lease_id\<close> and
  is not answered with 400: \<open>body.get\<close> raises \<open>AttributeError\<close>, or \<open>int\<close> raises
  \<open>ValueError\<close>, before any response is written, in every state of the daemon, and the
  state is left as it was.
\<close>

theorem heartbeat_non_object_body:
  "read_json rq_array = Inr (PList [PInt 1]) \<and>
   do_POST rt cfg ck rq_array s = (Inl (AttributeError ''object has no attribute 'get' ''), s, NoWorker) \<and>
   read_json rq_null = Inr PNone \<and>
   do_POST rt cfg ck rq_null s = (Inl (AttributeError ''object has no attribute 'get' ''), s, NoWorker) \<and>
   do_POST rt cfg ck rq_badlen s = (Inl (ValueError ''invalid literal for int()''), s, NoWorker)"
  by (simp add: do_POST_def post_lease_heartbeat_def read_json_def body_lease_id_def dict_get_def
      rq_array_def rq_null_def rq_badlen_def)

text \<open>
  C7, as the code has it. A release with a non-empty \<open>lease_id\<close> always answers 200
  \<open>{ok: true}\<close>: the id is popped, so an id that was not in the map leaves the map as it
  was and is never inserted, and \<open>last_zero_lease_time\<close> becomes \<open>now\<close> exactly when the
  map is empty afterwards. Nothing else changes.
\<close>

theorem release_endpoint:
  assumes "read_json rq = Inr (PDict kvs)"
    and "body_lease_id rt (PDict kvs) = Inr lid"
    and "lid \<noteq> []"
  shows "\<exists>s'. post_lease_release rt now rq s = (Inr (200, ok_body), s') \<and>
           leases s' = AList.delete lid (leases s) \<and>
           map_of (leases s') lid = None \<and>
           (map_of (leases s) lid = None \<longrightarrow> leases s' = leases s) \<and>
           last_zero_lease_time s' = (if leases s' = [] then now else last_zero_lease_time s) \<and>
           s' = s\<lparr>leases := leases s', last_zero_lease_time := last_zero_lease_time s'\<rparr>"
proof -
  have "map_of (leases s) lid = None \<Longrightarrow> AList.delete lid (leases s) = leases s"
    by (simp add: map_of_eq_None_iff)
  with assms show ?thesis
    by (simp add: post_lease_release_def Let_def delete_conv')
qed


theorem release_endpoint_witness:
  "\<exists>s'. post_lease_release rt0 7 (rq_json ''/lease/release'' [(''lease_id'', PStr ''l9_42_1'')]) (init_state 0)
           = (Inr (200, ok_body), s') \<and> leases s' = [] \<and> last_zero_lease_time s' = 7"
proof -
  have 1: "read_json (rq_json ''/lease/release'' [(''lease_id'', PStr ''l9_42_1'')])
             = Inr (PDict [(''lease_id'', PStr ''l9_42_1'')])"
    by (simp add: read_json_def rq_json_def)
  have 2: "body_lease_id rt0 (PDict [(''lease_id'', PStr ''l9_42_1'')]) = Inr ''l9_42_1''"
    by (simp add: body_lease_id_def dict_get_def py_or_def py_str_def)
  have 3: "''l9_42_1'' \<noteq> []" by simp
  from release_endpoint [OF 1 2 3, of 7 "init_state 0"] show ?thesis
    by (auto simp: init_state_def)
qed

text \<open>
  Releasing an id the map does not hold and releasing one it holds give the same
  response: there is no \<open>unknown\<close> outcome.
\<close>

lemma lease_id_9: "mk_lease_id 9 42 1 = ''l9_42_1''"
  by code_simp

theorem release_unknown_counterexample:
  "map_of (leases (init_state 0)) ''l9_42_1'' = None \<and>
   fst (post_lease_release rt0 7 (rq_json ''/lease/release'' [(''lease_id'', PStr ''l9_42_1'')])
          (init_state 0)) = Inr (200, ok_body) \<and>
   map_of (leases (snd (post_lease_acquire cfg0 9 42 1 3 3 (rq_json ''/lease/acquire'' []) (init_state 0))))
      ''l9_42_1'' \<noteq> None \<and>
   fst (post_lease_release rt0 7 (rq_json ''/lease/release'' [(''lease_id'', PStr ''l9_42_1'')])
          (snd (post_lease_acquire cfg0 9 42 1 3 3 (rq_json ''/lease/acquire'' []) (init_state 0))))
     = Inr (200, ok_body)"
  by (simp add: post_lease_release_def post_lease_acquire_def read_json_def rq_json_def
      body_lease_id_def dict_get_def py_or_def py_str_def init_state_def lease_id_9 Let_def)

text \<open>
  C8, as the code has it. The id handed out by \<open>/lease/acquire\<close> is determined by the wall
  clock in milliseconds, the pid and the thread identifier: two acquisitions get the
  same id exactly when all three readings coincide.
\<close>

theorem acquire_lease_ids:
  assumes "read_json rq = Inr m" and "read_json rq' = Inr m'"
  shows "acquired_id (fst (post_lease_acquire cfg ms pid tid a b rq s)) = Some (mk_lease_id ms pid tid) \<and>
     (acquired_id (fst (post_lease_acquire cfg ms pid tid a b rq s))
        = acquired_id (fst (post_lease_acquire cfg ms' pid' tid' a' b' rq' s'))
      \<longleftrightarrow> ms = ms' \<and> pid = pid' \<and> tid = tid')"
  using assms
  by (simp add: post_lease_acquire_def acquired_id_def Let_def mk_lease_id_inj)

theorem acquire_lease_ids_witness:
  "acquired_id (fst (post_lease_acquire cfg0 9 42 1 3 3 (rq_json ''/lease/acquire'' []) (init_state 0)))
     = Some ''l9_42_1'' \<and>
   acquired_id (fst (post_lease_acquire cfg0 9 42 1 3 3 (rq_json ''/lease/acquire'' []) (init_state 0)))
     \<noteq> acquired_id (fst (post_lease_acquire cfg0 10 42 1 4 4 (rq_json ''/lease/acquire'' []) (init_state 0)))"
proof -
  have 1: "read_json (rq_json ''/lease/acquire'' []) = Inr (PDict [])"
    by (simp add: read_json_def rq_json_def)
  from acquire_lease_ids [OF 1 1, where cfg = cfg0 and ms = 9 and pid = 42 and tid = 1
      and a = 3 and b = 3 and s = "init_state 0" and ms' = 10 and pid' = 42 and tid' = 1
      and a' = 4 and b' = 4 and s' = "init_state 0"]
  show ?thesis unfolding lease_id_9 by auto
qed

text \<open>
  Acquire, release, and acquire again within the same millisecond on a thread whose
  identifier is reused: the second acquisition gets the id of the first.
\<close>

theorem lease_id_collision:
  "acquired_id (fst (do_POST rt0 cfg0 (ck0 9 1 3) (rq_json ''/lease/acquire'' []) (init_state 0)))
     = Some ''l9_42_1'' \<and>
   leases (fst (snd (do_POST rt0 cfg0 (ck0 9 2 3)
              (rq_json ''/lease/release'' [(''lease_id'', PStr ''l9_42_1'')])
              (fst (snd (do_POST rt0 cfg0 (ck0 9 1 3) (rq_json ''/lease/acquire'' []) (init_state 0))))))) = [] \<and>
   acquired_id (fst (do_POST rt0 cfg0 (ck0 9 1 3) (rq_json ''/lease/acquire'' [])
       (fst (snd (do_POST rt0 cfg0 (ck0 9 2 3)
              (rq_json ''/lease/release'' [(''lease_id'', PStr ''l9_42_1'')])
              (fst (snd (do_POST rt0 cfg0 (ck0 9 1 3) (rq_json ''/lease/acquire'' []) (init_state 0)))))))))
     = Some ''l9_42_1''"
  by (simp add: do_POST_def post_lease_release_def post_lease_acquire_def read_json_def rq_json_def
      body_lease_id_def dict_get_def py_or_def py_str_def init_state_def lease_id_9 Let_def
      ck0_def acquired_id_def)

subsection \<open>The ensure pipeline, step by step\<close>

lemma ensure_ollama_server_frame:
  assumes "ensure_ollama_server rt cfg ob s = (r, s', a)"
  shows "ensuring s' = ensuring s" and "stage s' = stage s" and "last_error s' = last_error s"
    and "leases s' = leases s" and "last_zero_lease_time s' = last_zero_lease_time s"
    and "stt_proc s' = stt_proc s" and "warm_model s' = warm_model s"
    and "warm_done s' = warm_done s" and "shutdown_flag s' = shutdown_flag s"
  using assms
  by (auto simp: ensure_ollama_server_def Let_def split: sum.splits if_splits prod.splits)

lemma ensure_ollama_server_actions:
  assumes "ensure_ollama_server rt cfg ob s = (r, s', a)"
  shows "(a = [] \<and> (ollama_proc s' = None \<or> ollama_proc s' = ollama_proc s))
            \<or> (\<exists>p. a = [SpawnOllama p] \<and> ollama_proc s' = Some p)"
  using assms
  by (auto simp: ensure_ollama_server_def Let_def split: sum.splits if_splits prod.splits)

lemma ensure_stt_frame:
  assumes "ensure_stt rt cfg ob s = (r, s', a)"
  shows "ensuring s' = ensuring s" and "stage s' = stage s" and "last_error s' = last_error s"
    and "leases s' = leases s" and "last_zero_lease_time s' = last_zero_lease_time s"
    and "ollama_proc s' = ollama_proc s" and "ollama_managed s' = ollama_managed s"
    and "warm_model s' = warm_model s"
    and "warm_done s' = warm_done s" and "shutdown_flag s' = shutdown_flag s"
  using assms
  by (auto simp: ensure_stt_def Let_def split: sum.splits if_splits prod.splits)

lemma ensure_stt_actions:
  assumes "ensure_stt rt cfg ob s = (r, s', a)"
  shows "(a = [] \<and> (stt_proc s' = None \<or> stt_proc s' = stt_proc s))
            \<or> (\<exists>p. a = [SpawnStt p] \<and> stt_proc s' = Some p)"
  using assms
  by (auto simp: ensure_stt_def Let_def split: sum.splits if_splits prod.splits)

lemma ensure_kokoro_frame:
  assumes "ensure_kokoro rt cfg ob s = (r, s', a)"
  shows "s' = s" and "a = [] \<or> a = [ComposeUp]"
  using assms
  by (auto simp: ensure_kokoro_def Let_def split: sum.splits if_splits prod.splits)

lemma ollama_warm_actions:
  assumes "ollama_warm rt cfg w m = (r, a)"
  shows "a = [] \<or> a = [Warm m]" and "r = Inr () \<Longrightarrow> a = [Warm m]"
  using assms
  by (auto simp: ollama_warm_def split: sum.splits if_splits prod.splits)

lemma ensure_all_shape:
  assumes "ensure_all rt cfg ob model s = (r, s', tr)"
  obtains
    (llm_fails) e a1 where
      "ensure_ollama_server rt cfg (eo_ollama ob) (set_stage ''ensure:ollama_server'' s) = (Inl e, s', a1)"
      "r = Inl e" "tr = StageSet ''ensure:ollama_server'' # map Did a1"
  | (stt_fails) e u1 s2 a1 a2 where
      "ensure_ollama_server rt cfg (eo_ollama ob) (set_stage ''ensure:ollama_server'' s) = (Inr u1, s2, a1)"
      "ensure_stt rt cfg (eo_stt ob) (set_stage ''ensure:stt'' s2) = (Inl e, s', a2)"
      "r = Inl e"
      "tr = StageSet ''ensure:ollama_server'' # map Did a1 @ StageSet ''ensure:stt'' # map Did a2"
  | (tts_fails) e u1 u2 s2 s4 a1 a2 a3 where
      "ensure_ollama_server rt cfg (eo_ollama ob) (set_stage ''ensure:ollama_server'' s) = (Inr u1, s2, a1)"
      "ensure_stt rt cfg (eo_stt ob) (set_stage ''ensure:stt'' s2) = (Inr u2, s4, a2)"
      "ensure_kokoro rt cfg (eo_kokoro ob) (set_stage ''ensure:kokoro'' s4) = (Inl e, s', a3)"
      "r = Inl e"
      "tr = StageSet ''ensure:ollama_server'' # map Did a1 @ StageSet ''ensure:stt'' # map Did a2
            @ StageSet ''ensure:kokoro'' # map Did a3"
  | (warm_fails) e u1 u2 u3 s2 s4 s6 a1 a2 a3 a4 where
      "ensure_ollama_server rt cfg (eo_ollama ob) (set_stage ''ensure:ollama_server'' s) = (Inr u1, s2, a1)"
      "ensure_stt rt cfg (eo_stt ob) (set_stage ''ensure:stt'' s2) = (Inr u2, s4, a2)"
      "ensure_kokoro rt cfg (eo_kokoro ob) (set_stage ''ensure:kokoro'' s4) = (Inr u3, s6, a3)"
      "requested model"
      "ollama_warm rt cfg (eo_warm ob) (the model) = (Inl e, a4)"
      "r = Inl e"
      "s' = set_stage ''ensure:ollama_warm'' (s6\<lparr>warm_model := model, warm_done := False\<rparr>)"
      "tr = StageSet ''ensure:ollama_server'' # map Did a1 @ StageSet ''ensure:stt'' # map Did a2
            @ StageSet ''ensure:kokoro'' # map Did a3 @ StageSet ''ensure:ollama_warm'' # map Did a4"
  | (warmed) u1 u2 u3 u4 s2 s4 s6 a1 a2 a3 a4 where
      "ensure_ollama_server rt cfg (eo_ollama ob) (set_stage ''ensure:ollama_server'' s) = (Inr u1, s2, a1)"
      "ensure_stt rt cfg (eo_stt ob) (set_stage ''ensure:stt'' s2) = (Inr u2, s4, a2)"
      "ensure_kokoro rt cfg (eo_kokoro ob) (set_stage ''ensure:kokoro'' s4) = (Inr u3, s6, a3)"
      "requested model"
      "ollama_warm rt cfg (eo_warm ob) (the model) = (Inr u4, a4)"
      "r = Inr ()"
      "s' = set_stage ''ready'' (s6\<lparr>warm_model := model, warm_done := True\<rparr>)"
      "tr = StageSet ''ensure:ollama_server'' # map Did a1 @ StageSet ''ensure:stt'' # map Did a2
            @ StageSet ''ensure:kokoro'' # map Did a3 @ StageSet ''ensure:ollama_warm'' # map Did a4
            @ [StageSet ''ready'']"
  | (no_model) u1 u2 u3 s2 s4 s6 a1 a2 a3 where
      "ensure_ollama_server rt cfg (eo_ollama ob) (set_stage ''ensure:ollama_server'' s) = (Inr u1, s2, a1)"
      "ensure_stt rt cfg (eo_stt ob) (set_stage ''ensure:stt'' s2) = (Inr u2, s4, a2)"
      "ensure_kokoro rt cfg (eo_kokoro ob) (set_stage ''ensure:kokoro'' s4) = (Inr u3, s6, a3)"
      "\<not> requested model"
      "r = Inr ()"
      "s' = set_stage ''ready'' (s6\<lparr>warm_model := model, warm_done := False\<rparr>)"
      "tr = StageSet ''ensure:ollama_server'' # map Did a1 @ StageSet ''ensure:stt'' # map Did a2
            @ StageSet ''ensure:kokoro'' # map Did a3 @ [StageSet ''ready'']"
  using assms unfolding ensure_all_def Let_def
  by (auto simp: set_stage_def split: prod.splits sum.splits if_splits)



lemma ensure_ollama_server_set: "ensure_ollama_server rt cfg ob s = (r, s', a) \<Longrightarrow> set a \<subseteq> range SpawnOllama"
  using ensure_ollama_server_actions by fastforce

lemma ensure_stt_set: "ensure_stt rt cfg ob s = (r, s', a) \<Longrightarrow> set a \<subseteq> range SpawnStt"
  using ensure_stt_actions by fastforce

lemma ensure_kokoro_set: "ensure_kokoro rt cfg ob s = (r, s', a) \<Longrightarrow> set a \<subseteq> {ComposeUp}"
  using ensure_kokoro_frame(2) by fastforce

lemma ollama_warm_set: "ollama_warm rt cfg w m = (r, a) \<Longrightarrow> set a \<subseteq> {Warm m}"
  using ollama_warm_actions(1) by fastforce

lemma not_in_spawns:
  "set a \<subseteq> range SpawnOllama \<Longrightarrow> Warm m \<notin> set a"
  "set b \<subseteq> range SpawnStt \<Longrightarrow> Warm m \<notin> set b"
  "set c \<subseteq> {ComposeUp} \<Longrightarrow> Warm m \<notin> set c"
  by auto

lemma stage_not_did: "StageSet v \<notin> Did ` A"
  by auto

text \<open>
  C9, as the code has it. Every run that gets past the TTS step writes
  \<open>warm_model := model\<close> (\<open>None\<close> when no model was requested) and \<open>warm_done := False\<close>;
  only when a model was requested does the run enter the warm stage, call warm, and set
  \<open>warm_done := True\<close> on success. A run that fails before that step leaves both fields
  as they were.
\<close>

theorem warm_writes:
  assumes "ensure_all rt cfg ob model s = (r, s', tr)"
  shows "((r = Inr () \<or> StageSet ''ensure:ollama_warm'' \<in> set tr) \<longrightarrow>
            warm_model s' = model \<and> (warm_done s' \<longleftrightarrow> requested model \<and> r = Inr ())) \<and>
         (\<not> (r = Inr () \<or> StageSet ''ensure:ollama_warm'' \<in> set tr) \<longrightarrow>
            warm_model s' = warm_model s \<and> warm_done s' = warm_done s) \<and>
         (StageSet ''ensure:ollama_warm'' \<in> set tr \<longrightarrow> requested model) \<and>
         (\<forall>m. Did (Warm m) \<in> set tr \<longrightarrow> requested model \<and> model = Some m) \<and>
         (requested model \<and> r = Inr () \<longrightarrow> Did (Warm (the model)) \<in> set tr)"
  using assms
proof (cases rule: ensure_all_shape)
  case (llm_fails e a1)
  note n1 = not_in_spawns(1) [OF ensure_ollama_server_set [OF llm_fails(1)]]
  from ensure_ollama_server_frame(7,8) [OF llm_fails(1)] llm_fails(2,3) n1
  show ?thesis by (simp add: set_stage_def stage_not_did image_iff)
next
  case (stt_fails e u1 s2 a1 a2)
  note n1 = not_in_spawns(1) [OF ensure_ollama_server_set [OF stt_fails(1)]]
  note n2 = not_in_spawns(2) [OF ensure_stt_set [OF stt_fails(2)]]
  from ensure_ollama_server_frame(7,8) [OF stt_fails(1)]
    ensure_stt_frame(8,9) [OF stt_fails(2)] stt_fails(3,4) n1 n2
  show ?thesis by (simp add: set_stage_def stage_not_did image_iff)
next
  case (tts_fails e u1 u2 s2 s4 a1 a2 a3)
  note n1 = not_in_spawns(1) [OF ensure_ollama_server_set [OF tts_fails(1)]]
  note n2 = not_in_spawns(2) [OF ensure_stt_set [OF tts_fails(2)]]
  note n3 = not_in_spawns(3) [OF ensure_kokoro_set [OF tts_fails(3)]]
  from ensure_ollama_server_frame(7,8) [OF tts_fails(1)]
    ensure_stt_frame(8,9) [OF tts_fails(2)]
    ensure_kokoro_frame(1) [OF tts_fails(3)] tts_fails(4,5) n1 n2 n3
  show ?thesis by (simp add: set_stage_def stage_not_did image_iff)
next
  case (warm_fails e u1 u2 u3 s2 s4 s6 a1 a2 a3 a4)
  note n1 = not_in_spawns(1) [OF ensure_ollama_server_set [OF warm_fails(1)]]
  note n2 = not_in_spawns(2) [OF ensure_stt_set [OF warm_fails(2)]]
  note n3 = not_in_spawns(3) [OF ensure_kokoro_set [OF warm_fails(3)]]
  from warm_fails(4) obtain m0 where m0: "model = Some m0"
    by (auto simp: requested_def split: option.splits)
  from ollama_warm_set [OF warm_fails(5)] m0 have "\<And>m. Warm m \<in> set a4 \<Longrightarrow> m = m0" by auto
  with warm_fails(4,6,7,8) n1 n2 n3 m0
  show ?thesis by (auto simp: set_stage_def stage_not_did image_iff)
next
  case (warmed u1 u2 u3 u4 s2 s4 s6 a1 a2 a3 a4)
  note n1 = not_in_spawns(1) [OF ensure_ollama_server_set [OF warmed(1)]]
  note n2 = not_in_spawns(2) [OF ensure_stt_set [OF warmed(2)]]
  note n3 = not_in_spawns(3) [OF ensure_kokoro_set [OF warmed(3)]]
  from warmed(4) obtain m0 where m0: "model = Some m0"
    by (auto simp: requested_def split: option.splits)
  from ollama_warm_actions(2) [OF warmed(5)] m0 have "a4 = [Warm m0]" by simp
  with warmed(4,6,7,8) n1 n2 n3 m0
  show ?thesis by (auto simp: set_stage_def stage_not_did image_iff)
next
  case (no_model u1 u2 u3 s2 s4 s6 a1 a2 a3)
  note n1 = not_in_spawns(1) [OF ensure_ollama_server_set [OF no_model(1)]]
  note n2 = not_in_spawns(2) [OF ensure_stt_set [OF no_model(2)]]
  note n3 = not_in_spawns(3) [OF ensure_kokoro_set [OF no_model(3)]]
  from no_model(4,5,6,7) n1 n2 n3
  show ?thesis by (auto simp: set_stage_def stage_not_did image_iff)
qed


lemmas eval_defs =
  ensure_all_def ensure_ollama_server_def ensure_stt_def ensure_kokoro_def ollama_warm_def
  ollama_running_def stt_running_def kokoro_running_def http_json_def decode_reply_def has_key_def
  OLLAMA_VERSION_URL_def OLLAMA_GENERATE_URL_def KOKORO_VOICES_URL_def
  set_stage_def set_error_def requested_def worker_def worker_body_def worker_finally_def
  ob_up_def ob_stt_exits_def up_stt_def up_kokoro_def up_ollama_def rt0_def cfg0_def init_state_def
  Let_def

lemma run_up_model:
  "ensure_all rt0 cfg0 ob_up (Some ''qwen3:8b'') (init_state 0) =
     (Inr (), (init_state 0)\<lparr>stage := ''ready'', warm_model := Some ''qwen3:8b'', warm_done := True\<rparr>,
      [StageSet ''ensure:ollama_server'', StageSet ''ensure:stt'', StageSet ''ensure:kokoro'',
       StageSet ''ensure:ollama_warm'', Did (Warm ''qwen3:8b''), StageSet ''ready''])"
  by (simp add: eval_defs)

lemma run_up_no_model:
  "ensure_all rt0 cfg0 ob_up None
       ((init_state 0)\<lparr>stage := ''ready'', warm_model := Some ''qwen3:8b'', warm_done := True\<rparr>) =
     (Inr (), (init_state 0)\<lparr>stage := ''ready'', warm_model := None, warm_done := False\<rparr>,
      [StageSet ''ensure:ollama_server'', StageSet ''ensure:stt'', StageSet ''ensure:kokoro'',
       StageSet ''ready''])"
  by (simp add: eval_defs)

theorem warm_writes_witness:
  "warm_model (fst (snd (ensure_all rt0 cfg0 ob_up (Some ''qwen3:8b'') (init_state 0)))) = Some ''qwen3:8b''
   \<and> warm_done (fst (snd (ensure_all rt0 cfg0 ob_up (Some ''qwen3:8b'') (init_state 0))))
   \<and> Did (Warm ''qwen3:8b'') \<in> set (snd (snd (ensure_all rt0 cfg0 ob_up (Some ''qwen3:8b'') (init_state 0))))"
  using warm_writes [OF run_up_model] by (simp add: run_up_model requested_def)

text \<open>
  A run with a model, then a run without one, all services healthy: the second run
  clears \<open>warm_model\<close> and \<open>warm_done\<close>.
\<close>

theorem warm_reset_counterexample:
  "warm_model (fst (snd (ensure_all rt0 cfg0 ob_up (Some ''qwen3:8b'') (init_state 0)))) = Some ''qwen3:8b''
   \<and> warm_done (fst (snd (ensure_all rt0 cfg0 ob_up (Some ''qwen3:8b'') (init_state 0))))
   \<and> warm_model (fst (snd (ensure_all rt0 cfg0 ob_up None
          (fst (snd (ensure_all rt0 cfg0 ob_up (Some ''qwen3:8b'') (init_state 0))))))) = None
   \<and> \<not> warm_done (fst (snd (ensure_all rt0 cfg0 ob_up None
          (fst (snd (ensure_all rt0 cfg0 ob_up (Some ''qwen3:8b'') (init_state 0)))))))"
  by (simp add: run_up_model run_up_no_model)

lemma stages_of_did [simp]: "stages_of (map Did a @ es) = stages_of es"
  by (induction a) auto

lemma stages_of_did_only [simp]: "stages_of (map Did a) = []"
  using stages_of_did [of a "[]"] by simp

lemma well_staged_did:
  "\<forall>x\<in>set a. stage_of_action x = v \<Longrightarrow> well_staged v (map Did a @ es) = well_staged v es"
  by (induction a) auto

lemma well_staged_did_only:
  "\<forall>x\<in>set a. stage_of_action x = v \<Longrightarrow> well_staged v (map Did a)"
  using well_staged_did [of a v "[]"] by simp

lemma staged_ollama: "ensure_ollama_server rt cfg ob s = (r, s', a) \<Longrightarrow>
    \<forall>x\<in>set a. stage_of_action x = ''ensure:ollama_server''"
  using ensure_ollama_server_set by fastforce

lemma staged_stt: "ensure_stt rt cfg ob s = (r, s', a) \<Longrightarrow> \<forall>x\<in>set a. stage_of_action x = ''ensure:stt''"
  using ensure_stt_set by fastforce

lemma staged_kokoro: "ensure_kokoro rt cfg ob s = (r, s', a) \<Longrightarrow> \<forall>x\<in>set a. stage_of_action x = ''ensure:kokoro''"
  using ensure_kokoro_set by fastforce

lemma staged_warm: "ollama_warm rt cfg w m = (r, a) \<Longrightarrow> \<forall>x\<in>set a. stage_of_action x = ''ensure:ollama_warm''"
  using ollama_warm_set by fastforce

lemma ensure_all_order:
  assumes "ensure_all rt cfg ob model s = (r, s', tr)"
  shows "(\<exists>k. stages_of tr = take k (pipeline_stages model)) \<and>
         (r = Inr () \<longleftrightarrow> stages_of tr = pipeline_stages model) \<and>
         well_staged cur tr \<and>
         stage s' = last (stages_of tr) \<and>
         set (stages_of tr) \<subseteq> code_stages"
  using assms
proof (cases rule: ensure_all_shape)
  case (llm_fails e a1)
  have k: "stages_of tr = take 1 (pipeline_stages model)"
    using llm_fails(3) by (simp add: pipeline_stages_def)
  from ensure_ollama_server_frame(2) [OF llm_fails(1)] llm_fails(2,3)
    well_staged_did_only [OF staged_ollama [OF llm_fails(1)]]
  have rest: "(r = Inr () \<longleftrightarrow> stages_of tr = pipeline_stages model) \<and>
         well_staged cur tr \<and> stage s' = last (stages_of tr) \<and> set (stages_of tr) \<subseteq> code_stages"
    by (auto simp: set_stage_def pipeline_stages_def code_stages_def)
  from k rest show ?thesis by blast
next
  case (stt_fails e u1 s2 a1 a2)
  have k: "stages_of tr = take 2 (pipeline_stages model)"
    using stt_fails(4) by (simp add: pipeline_stages_def)
  from ensure_stt_frame(2) [OF stt_fails(2)] stt_fails(3,4)
    well_staged_did [OF staged_ollama [OF stt_fails(1)]]
    well_staged_did_only [OF staged_stt [OF stt_fails(2)]]
  have rest: "(r = Inr () \<longleftrightarrow> stages_of tr = pipeline_stages model) \<and>
         well_staged cur tr \<and> stage s' = last (stages_of tr) \<and> set (stages_of tr) \<subseteq> code_stages"
    by (auto simp: set_stage_def pipeline_stages_def code_stages_def)
  from k rest show ?thesis by blast
next
  case (tts_fails e u1 u2 s2 s4 a1 a2 a3)
  have k: "stages_of tr = take 3 (pipeline_stages model)"
    using tts_fails(5) by (simp add: pipeline_stages_def)
  from ensure_kokoro_frame(1) [OF tts_fails(3)] tts_fails(4,5)
    well_staged_did [OF staged_ollama [OF tts_fails(1)]]
    well_staged_did [OF staged_stt [OF tts_fails(2)]]
    well_staged_did_only [OF staged_kokoro [OF tts_fails(3)]]
  have rest: "(r = Inr () \<longleftrightarrow> stages_of tr = pipeline_stages model) \<and>
         well_staged cur tr \<and> stage s' = last (stages_of tr) \<and> set (stages_of tr) \<subseteq> code_stages"
    by (auto simp: set_stage_def pipeline_stages_def code_stages_def)
  from k rest show ?thesis by blast
next
  case (warm_fails e u1 u2 u3 s2 s4 s6 a1 a2 a3 a4)
  have k: "stages_of tr = take 4 (pipeline_stages model)"
    using warm_fails(4,8) by (simp add: pipeline_stages_def)
  from warm_fails(4,6,7,8)
    well_staged_did [OF staged_ollama [OF warm_fails(1)]]
    well_staged_did [OF staged_stt [OF warm_fails(2)]]
    well_staged_did [OF staged_kokoro [OF warm_fails(3)]]
    well_staged_did_only [OF staged_warm [OF warm_fails(5)]]
  have rest: "(r = Inr () \<longleftrightarrow> stages_of tr = pipeline_stages model) \<and>
         well_staged cur tr \<and> stage s' = last (stages_of tr) \<and> set (stages_of tr) \<subseteq> code_stages"
    by (auto simp: set_stage_def pipeline_stages_def code_stages_def)
  from k rest show ?thesis by blast
next
  case (warmed u1 u2 u3 u4 s2 s4 s6 a1 a2 a3 a4)
  have k: "stages_of tr = take 5 (pipeline_stages model)"
    using warmed(4,8) by (simp add: pipeline_stages_def)
  from warmed(4,6,7,8)
    well_staged_did [OF staged_ollama [OF warmed(1)]]
    well_staged_did [OF staged_stt [OF warmed(2)]]
    well_staged_did [OF staged_kokoro [OF warmed(3)]]
    well_staged_did [OF staged_warm [OF warmed(5)]]
  have rest: "(r = Inr () \<longleftrightarrow> stages_of tr = pipeline_stages model) \<and>
         well_staged cur tr \<and> stage s' = last (stages_of tr) \<and> set (stages_of tr) \<subseteq> code_stages"
    by (auto simp: set_stage_def pipeline_stages_def code_stages_def)
  from k rest show ?thesis by blast
next
  case (no_model u1 u2 u3 s2 s4 s6 a1 a2 a3)
  have k: "stages_of tr = take 4 (pipeline_stages model)"
    using no_model(4,7) by (simp add: pipeline_stages_def)
  from no_model(4,5,6,7)
    well_staged_did [OF staged_ollama [OF no_model(1)]]
    well_staged_did [OF staged_stt [OF no_model(2)]]
    well_staged_did [OF staged_kokoro [OF no_model(3)]]
  have rest: "(r = Inr () \<longleftrightarrow> stages_of tr = pipeline_stages model) \<and>
         well_staged cur tr \<and> stage s' = last (stages_of tr) \<and> set (stages_of tr) \<subseteq> code_stages"
    by (auto simp: set_stage_def pipeline_stages_def code_stages_def)
  from k rest show ?thesis by blast
qed

subsection \<open>What each thread leaves untouched\<close>

lemma do_POST_frame:
  assumes "do_POST rt cfg ck rq s = (r, s', sp)"
  shows "stt_proc s' = stt_proc s" and "ollama_proc s' = ollama_proc s"
    and "ollama_managed s' = ollama_managed s" and "warm_model s' = warm_model s"
    and "warm_done s' = warm_done s" and "shutdown_flag s' = shutdown_flag s"
    and "sp = NoWorker \<Longrightarrow> ensuring s' = ensuring s \<and> stage s' = stage s \<and> last_error s' = last_error s"
    and "sp = Worker m \<Longrightarrow> \<not> ensuring s \<and> ensuring s' \<and> stage s' = ''starting'' \<and> last_error s' = None
            \<and> leases s' = leases s \<and> last_zero_lease_time s' = last_zero_lease_time s"
    and "last_zero_lease_time s' = last_zero_lease_time s \<or> last_zero_lease_time s' = mono1 ck
            \<or> last_zero_lease_time s' = mono2 ck"
  using assms
  by (auto simp: do_POST_def post_lease_acquire_def post_lease_heartbeat_def post_lease_release_def
      post_ensure_def Let_def split: if_splits sum.splits option.splits prod.splits)

lemma ensure_all_frame:
  assumes "ensure_all rt cfg ob model s = (r, s', tr)"
  shows "ensuring s' = ensuring s \<and> leases s' = leases s
    \<and> last_zero_lease_time s' = last_zero_lease_time s
    \<and> shutdown_flag s' = shutdown_flag s \<and> last_error s' = last_error s"
  using assms
proof (cases rule: ensure_all_shape)
  case (llm_fails e a1)
  note f = ensure_ollama_server_frame [OF llm_fails(1)]
  from f show ?thesis by (simp add: set_stage_def)
next
  case (stt_fails e u1 s2 a1 a2)
  note f = ensure_ollama_server_frame [OF stt_fails(1)] ensure_stt_frame [OF stt_fails(2)]
  from f show ?thesis by (simp add: set_stage_def)
next
  case (tts_fails e u1 u2 s2 s4 a1 a2 a3)
  note f = ensure_ollama_server_frame [OF tts_fails(1)] ensure_stt_frame [OF tts_fails(2)]
    ensure_kokoro_frame(1) [OF tts_fails(3)]
  from f show ?thesis by (simp add: set_stage_def)
next
  case (warm_fails e u1 u2 u3 s2 s4 s6 a1 a2 a3 a4)
  note f = ensure_ollama_server_frame [OF warm_fails(1)] ensure_stt_frame [OF warm_fails(2)]
    ensure_kokoro_frame(1) [OF warm_fails(3)] warm_fails(7)
  from f show ?thesis by (simp add: set_stage_def)
next
  case (warmed u1 u2 u3 u4 s2 s4 s6 a1 a2 a3 a4)
  note f = ensure_ollama_server_frame [OF warmed(1)] ensure_stt_frame [OF warmed(2)]
    ensure_kokoro_frame(1) [OF warmed(3)] warmed(7)
  from f show ?thesis by (simp add: set_stage_def)
next
  case (no_model u1 u2 u3 s2 s4 s6 a1 a2 a3)
  note f = ensure_ollama_server_frame [OF no_model(1)] ensure_stt_frame [OF no_model(2)]
    ensure_kokoro_frame(1) [OF no_model(3)] no_model(6)
  from f show ?thesis by (simp add: set_stage_def)
qed

lemma worker_body_frame:
  assumes "worker_body rt cfg ob model s = (s', tr)"
  shows "ensuring s' = ensuring s \<and> leases s' = leases s
    \<and> last_zero_lease_time s' = last_zero_lease_time s \<and> shutdown_flag s' = shutdown_flag s"
proof (cases "ensure_all rt cfg ob model s")
  case (fields r s1 tr1)
  from ensure_all_frame [OF fields] assms fields show ?thesis
    by (cases r) (auto simp: worker_body_def set_stage_def set_error_def)
qed

lemma worker_body_stages:
  assumes "worker_body rt cfg ob model s = (s', tr)"
  shows "stage s' \<in> code_stages \<and> set (stages_of tr) \<subseteq> code_stages"
proof (cases "ensure_all rt cfg ob model s")
  case (fields r s1 tr1)
  have ne: "stages_of tr1 \<noteq> []"
    using fields by (cases rule: ensure_all_shape) auto
  from ensure_all_order [OF fields, of "[]"] have o: "stage s1 = last (stages_of tr1)"
    "set (stages_of tr1) \<subseteq> code_stages" by simp_all
  from o ne have "stage s1 \<in> code_stages" using last_in_set by fastforce
  moreover have "stages_of (tr1 @ [StageSet ''error'']) = stages_of tr1 @ [''error'']"
    by (induction tr1 rule: stages_of.induct) auto
  ultimately show ?thesis
    using assms fields o(2)
    by (cases r) (auto simp: worker_body_def set_stage_def set_error_def code_stages_def)
qed

lemma reaper_tick_frame:
  assumes "reaper_tick rt cfg now s = (d, wm, s')"
  shows "ensuring s' = ensuring s" and "stage s' = stage s" and "last_error s' = last_error s"
    and "stt_proc s' = stt_proc s" and "ollama_proc s' = ollama_proc s"
    and "ollama_managed s' = ollama_managed s" and "warm_model s' = warm_model s"
    and "warm_done s' = warm_done s" and "shutdown_flag s' = shutdown_flag s"
    and "last_zero_lease_time s' = last_zero_lease_time s \<or> last_zero_lease_time s' = now"
    and "leases s' = expire rt cfg now (leases s)"
  using assms by (auto simp: reaper_tick_def Let_def split: if_splits)

lemma idle_teardown_frame:
  assumes "idle_teardown rt cfg ob wm s = (s', acts)"
  shows "ensuring s' = ensuring s" and "stage s' = stage s" and "last_error s' = last_error s"
    and "leases s' = leases s" and "last_zero_lease_time s' = last_zero_lease_time s"
    and "warm_model s' = warm_model s" and "warm_done s' = warm_done s"
    and "shutdown_flag s' = shutdown_flag s"
    and "stt_proc s' = None \<or> stt_proc s' = stt_proc s"
    and "ollama_proc s' = None \<or> ollama_proc s' = ollama_proc s"
  using assms
  by (auto simp: idle_teardown_def stop_stt_def stop_kokoro_def stop_ollama_def Let_def
      split: if_splits sum.splits option.splits prod.splits)

lemma shutdown_frame:
  assumes "shutdown rt cfg ob s = (s', acts)"
  shows "ensuring s' = ensuring s" and "stage s' = stage s" and "last_error s' = last_error s"
    and "leases s' = leases s" and "last_zero_lease_time s' = last_zero_lease_time s"
    and "warm_model s' = warm_model s" and "warm_done s' = warm_done s"
    and "stt_proc s' = None \<or> stt_proc s' = stt_proc s"
    and "ollama_proc s' = None \<or> ollama_proc s' = ollama_proc s"
  using assms
  by (auto simp: shutdown_def stop_stt_def stop_kokoro_def stop_ollama_def Let_def
      split: if_splits sum.splits option.splits prod.splits)

lemma run_invariant:
  assumes "P \<sigma>" and "\<And>x \<tau>. P \<tau> \<Longrightarrow> P (sys_step rt cfg x \<tau>)"
  shows "P (run rt cfg ops \<sigma>)"
  using assms(1) unfolding run_def
  by (induction ops arbitrary: \<sigma>) (auto intro: assms(2))

lemma run_append: "run rt cfg (xs @ ys) \<sigma> = run rt cfg ys (run rt cfg xs \<sigma>)"
  by (simp add: run_def)



subsection \<open>Admission, stages and failure of the pipeline\<close>

lemma stages_of_append: "stages_of (xs @ ys) = stages_of xs @ stages_of ys"
  by (induction xs rule: stages_of.induct) auto

lemma step_stages:
  assumes "stage (st \<sigma>) \<in> code_stages \<and> set (stages_of (effects \<sigma>)) \<subseteq> code_stages"
  shows "stage (st (sys_step rt cfg x \<sigma>)) \<in> code_stages
           \<and> set (stages_of (effects (sys_step rt cfg x \<sigma>))) \<subseteq> code_stages"
proof (cases x)
  case (Post ck rq)
  obtain r s1 sp where p: "do_POST rt cfg ck rq (st \<sigma>) = (r, s1, sp)" by (cases "do_POST rt cfg ck rq (st \<sigma>)")
  show ?thesis
  proof (cases sp)
    case NoWorker
    with do_POST_frame(7) [OF p] assms p Post show ?thesis by simp
  next
    case (Worker m)
    with do_POST_frame(8) [OF p] assms p Post show ?thesis
      by (simp add: stages_of_append code_stages_def)
  qed
next
  case (WorkerBody i ob)
  show ?thesis
  proof (cases "i < length (workers \<sigma>)")
    case False
    with assms WorkerBody show ?thesis by simp
  next
    case True
    show ?thesis
    proof (cases "workers \<sigma> ! i")
      case Finishing
      with assms WorkerBody True show ?thesis by simp
    next
      case (Admitted m)
      obtain s1 tr where w: "worker_body rt cfg ob m (st \<sigma>) = (s1, tr)"
        by (cases "worker_body rt cfg ob m (st \<sigma>)")
      from worker_body_stages [OF w] assms WorkerBody True Admitted w show ?thesis
        by (simp add: stages_of_append)
    qed
  qed
next
  case (WorkerFinally i)
  with assms show ?thesis by (simp add: worker_finally_def)
next
  case (Tick now)
  obtain d wm s1 where t: "reaper_tick rt cfg now (st \<sigma>) = (d, wm, s1)"
    by (cases "reaper_tick rt cfg now (st \<sigma>)")
  from reaper_tick_frame(2) [OF t] assms Tick t show ?thesis by auto
next
  case (Teardown ob)
  show ?thesis
  proof (cases "reaper \<sigma>")
    case (Stopping wm)
    obtain s1 acts where t: "idle_teardown rt cfg ob wm (st \<sigma>) = (s1, acts)"
      by (cases "idle_teardown rt cfg ob wm (st \<sigma>)")
    from idle_teardown_frame(2) [OF t] assms Teardown Stopping t show ?thesis
      by (simp add: stages_of_append)
  qed (use assms Teardown in auto)
next
  case (Reset now)
  with assms show ?thesis by (auto simp: reaper_reset_def stages_of_append code_stages_def)
next
  case (Shutdown ob)
  obtain s1 acts where t: "shutdown rt cfg ob (st \<sigma>) = (s1, acts)"
    by (cases "shutdown rt cfg ob (st \<sigma>)")
  from shutdown_frame(2) [OF t] assms Shutdown t show ?thesis by (simp add: stages_of_append)
qed

lemma run_stages:
  "stage (st (run rt cfg ops (init_sys t0))) \<in> code_stages
     \<and> set (stages_of (effects (run rt cfg ops (init_sys t0)))) \<subseteq> code_stages"
  by (rule run_invariant) (simp add: init_sys_def init_state_def code_stages_def, rule step_stages)


lemmas post_defs =
  do_POST_def post_ensure_def post_lease_acquire_def post_lease_heartbeat_def post_lease_release_def
  read_json_def rq_json_def body_model_def body_lease_id_def dict_get_def py_or_def py_str_def
  ck0_def strip_def is_space_def


text \<open>
  C4, as the code has it. The values a run of the pipeline writes to \<open>stage\<close> are a prefix
  of \<open>ensure:ollama_server\<close>, \<open>ensure:stt\<close>, \<open>ensure:kokoro\<close>, \<open>ensure:ollama_warm\<close> (only if
  a model was requested), \<open>ready\<close>, the whole list exactly when the run succeeds; every
  start-up action happens while \<open>stage\<close> names its step; and \<open>stage\<close> only ever holds one
  of \<open>idle\<close>, \<open>starting\<close>, these five and \<open>error\<close>, in every state the daemon can reach.
\<close>

theorem pipeline_order:
  assumes "ensure_all rt cfg ob model s = (r, s', tr)"
  shows "(\<exists>k. stages_of tr = take k (pipeline_stages model)) \<and>
         (r = Inr () \<longleftrightarrow> stages_of tr = pipeline_stages model) \<and>
         well_staged (stage s) tr \<and>
         stage s' = last (stages_of tr) \<and>
         set (stages_of tr) \<subseteq> code_stages \<and>
         stage (st (run rt cfg ops (init_sys t0))) \<in> code_stages \<and>
         set (stages_of (effects (run rt cfg ops (init_sys t0)))) \<subseteq> code_stages"
  using ensure_all_order [OF assms, of "stage s"] run_stages [of rt cfg ops t0] by simp

theorem pipeline_order_witness:
  "stages_of (snd (snd (ensure_all rt0 cfg0 ob_up (Some ''qwen3:8b'') (init_state 0))))
     = [''ensure:ollama_server'', ''ensure:stt'', ''ensure:kokoro'', ''ensure:ollama_warm'', ''ready'']
   \<and> stage (fst (snd (ensure_all rt0 cfg0 ob_up (Some ''qwen3:8b'') (init_state 0)))) = ''ready''"
  using pipeline_order [OF run_up_model, of "[]" 0]
  by (simp add: run_up_model pipeline_stages_def requested_def)

text \<open>
  Three of the values written are not among the names the specification lists.
\<close>

theorem stage_names_counterexample:
  "stages_of (snd (snd (ensure_all rt0 cfg0 ob_up (Some ''qwen3:8b'') (init_state 0))))
     = [''ensure:ollama_server'', ''ensure:stt'', ''ensure:kokoro'', ''ensure:ollama_warm'', ''ready'']
   \<and> ''ensure:ollama_server'' \<notin> spec_stages \<and> ''ensure:kokoro'' \<notin> spec_stages
   \<and> ''ensure:ollama_warm'' \<notin> spec_stages"
  by (simp add: run_up_model spec_stages_def)

lemma fail_trace_distinct:
  assumes "ensure_all rt cfg ob model s = (Inl e, s', tr)"
  shows "distinct (tr @ [StageSet ''error''])"
  using assms
proof (cases rule: ensure_all_shape)
  case (llm_fails e a1)
  from ensure_ollama_server_actions [OF llm_fails(1)] llm_fails(3) show ?thesis by auto
next
  case (stt_fails e u1 s2 a1 a2)
  from ensure_ollama_server_actions [OF stt_fails(1)] ensure_stt_actions [OF stt_fails(2)] stt_fails(4)
  show ?thesis by auto
next
  case (tts_fails e u1 u2 s2 s4 a1 a2 a3)
  from ensure_ollama_server_actions [OF tts_fails(1)] ensure_stt_actions [OF tts_fails(2)]
    ensure_kokoro_frame(2) [OF tts_fails(3)] tts_fails(5)
  show ?thesis by auto
next
  case (warm_fails e u1 u2 u3 s2 s4 s6 a1 a2 a3 a4)
  from ensure_ollama_server_actions [OF warm_fails(1)] ensure_stt_actions [OF warm_fails(2)]
    ensure_kokoro_frame(2) [OF warm_fails(3)] ollama_warm_actions(1) [OF warm_fails(5)] warm_fails(8)
  show ?thesis by auto
qed simp_all

text \<open>
  C5. The request that admits a run is answered 202 before the run starts. If the run
  fails with exception \<open>e\<close>, the worker leaves \<open>stage = error\<close>, \<open>last_error = str(e)\<close> and
  \<open>ensuring = False\<close>, never reaches \<open>ready\<close>, and its trace repeats no stage and no
  action: nothing is retried.
\<close>

theorem ensure_failure:
  assumes "post_ensure rt rq s = (resp, s0, Worker model)"
    and "ensure_all rt cfg ob model sw = (Inl e, s1, tr)"
  shows "resp = Inr (202, ensuring_body) \<and> ensuring s0 \<and>
         worker rt cfg ob model sw =
           (s1\<lparr>last_error := Some (str_exn e), stage := ''error'', ensuring := False\<rparr>,
            tr @ [StageSet ''error'']) \<and>
         distinct (tr @ [StageSet ''error'']) \<and> ''ready'' \<notin> set (stages_of tr)"
proof -
  from assms(1) have "resp = Inr (202, ensuring_body) \<and> ensuring s0"
    by (auto simp: post_ensure_def split: sum.splits if_splits)
  moreover from assms(2) have "worker rt cfg ob model sw =
           (s1\<lparr>last_error := Some (str_exn e), stage := ''error'', ensuring := False\<rparr>,
            tr @ [StageSet ''error''])"
    by (simp add: worker_def worker_body_def worker_finally_def set_stage_def set_error_def)
  moreover note fail_trace_distinct [OF assms(2)]
  moreover have "''ready'' \<notin> set (stages_of tr)"
  proof -
    from ensure_all_order [OF assms(2), of "[]"] obtain k where
      k: "stages_of tr = take k (pipeline_stages model)" and
      ne: "stages_of tr \<noteq> pipeline_stages model" by auto
    have d: "distinct (pipeline_stages model)" and l: "last (pipeline_stages model) = ''ready''"
      by (simp_all add: pipeline_stages_def)
    from k ne have "k < length (pipeline_stages model)" by (metis linorder_not_less take_all)
    then have "''ready'' \<notin> set (take k (pipeline_stages model))"
      by (auto simp: pipeline_stages_def less_Suc_eq split: if_splits)
    with k show ?thesis by simp
  qed
  ultimately show ?thesis by simp
qed

lemma str_int_3: "str_int 3 = ''3''"
  by code_simp

lemma run_stt_exits:
  "ensure_all rt0 cfg0 ob_stt_exits (Some ''qwen3:8b'')
       ((init_state 0)\<lparr>ensuring := True, last_error := None, stage := ''starting''\<rparr>) =
     (Inl (RuntimeError (''STT exited early rc=3'' @ nl @ ''Traceback'')),
      (init_state 0)\<lparr>ensuring := True, stage := ''ensure:stt'', stt_proc := Some 4711\<rparr>,
      [StageSet ''ensure:ollama_server'', StageSet ''ensure:stt'', Did (SpawnStt 4711)])"
  by (simp add: eval_defs str_int_3)

lemma admit_model:
  "post_ensure rt0 (rq_json ''/ensure'' [(''ollama_model'', PStr ''qwen3:8b'')]) (init_state 0) =
     (Inr (202, ensuring_body),
      (init_state 0)\<lparr>ensuring := True, last_error := None, stage := ''starting''\<rparr>,
      Worker (Some ''qwen3:8b''))"
  by (simp add: post_defs init_state_def)

theorem ensure_failure_witness:
  "worker rt0 cfg0 ob_stt_exits (Some ''qwen3:8b'')
       ((init_state 0)\<lparr>ensuring := True, last_error := None, stage := ''starting''\<rparr>) =
     ((init_state 0)\<lparr>stage := ''error'', stt_proc := Some 4711,
                      last_error := Some (''STT exited early rc=3'' @ nl @ ''Traceback'')\<rparr>,
      [StageSet ''ensure:ollama_server'', StageSet ''ensure:stt'', Did (SpawnStt 4711),
       StageSet ''error''])"
  using ensure_failure [OF admit_model run_stt_exits] by (simp add: init_state_def)

subsection \<open>Ownership\<close>

lemma spawned_append: "spawned (xs @ ys) = spawned xs \<union> spawned ys"
  by (auto simp: spawned_def)

lemma halted_append: "halted (xs @ ys) = halted xs \<union> halted ys"
  by (auto simp: halted_def)

lemma owned_procs_halted: "halted es \<subseteq> P \<Longrightarrow> owned_procs P es"
proof (induction P es rule: owned_procs.induct)
  case (3 P p es)
  then show ?case by (auto simp: halted_def)
next
  case (4 P p es)
  then show ?case by (auto simp: halted_def)
qed (auto simp: halted_def)

lemma owned_procs_append:
  "owned_procs P (xs @ ys) \<longleftrightarrow> owned_procs P xs \<and> owned_procs (P \<union> spawned xs) ys"
proof (induction P xs rule: owned_procs.induct)
  case (3 P p es)
  have "insert p P \<union> spawned es = P \<union> spawned (Did (SpawnStt p) # es)"
    by (auto simp: spawned_def)
  with 3 show ?case by simp
next
  case (4 P p es)
  have "insert p P \<union> spawned es = P \<union> spawned (Did (SpawnOllama p) # es)"
    by (auto simp: spawned_def)
  with 4 show ?case by simp
qed (auto simp: spawned_def)

lemma spawned_simps [simp]:
  "spawned [] = {}" "spawned (StageSet v # es) = spawned es"
  "spawned (Did (SpawnStt p) # es) = insert p (spawned es)"
  "spawned (Did (SpawnOllama p) # es) = insert p (spawned es)"
  "spawned (Did ComposeUp # es) = spawned es" "spawned (Did ComposeStop # es) = spawned es"
  "spawned (Did (Terminate p) # es) = spawned es" "spawned (Did (Kill p) # es) = spawned es"
  "spawned (Did (Warm m) # es) = spawned es" "spawned (Did (Unload m) # es) = spawned es"
  by (auto simp: spawned_def)

lemma halted_simps [simp]:
  "halted [] = {}" "halted (StageSet v # es) = halted es"
  "halted (Did (SpawnStt p) # es) = halted es"
  "halted (Did (SpawnOllama p) # es) = halted es"
  "halted (Did ComposeUp # es) = halted es" "halted (Did ComposeStop # es) = halted es"
  "halted (Did (Terminate p) # es) = insert p (halted es)"
  "halted (Did (Kill p) # es) = insert p (halted es)"
  "halted (Did (Warm m) # es) = halted es" "halted (Did (Unload m) # es) = halted es"
  by (auto simp: halted_def)

lemma ollama_server_procs:
  assumes "ensure_ollama_server rt cfg ob s = (r, s', a)"
  shows "halted (map Did a) = {}"
    and "\<forall>p. ollama_proc s' = Some p \<longrightarrow> ollama_proc s = Some p \<or> p \<in> spawned (map Did a)"
  using ensure_ollama_server_actions [OF assms] by auto

lemma stt_procs:
  assumes "ensure_stt rt cfg ob s = (r, s', a)"
  shows "halted (map Did a) = {}"
    and "\<forall>p. stt_proc s' = Some p \<longrightarrow> stt_proc s = Some p \<or> p \<in> spawned (map Did a)"
  using ensure_stt_actions [OF assms] by auto

lemma kokoro_procs:
  assumes "ensure_kokoro rt cfg ob s = (r, s', a)"
  shows "halted (map Did a) = {}"
  using ensure_kokoro_frame(2) [OF assms] by auto

lemma warm_procs:
  assumes "ollama_warm rt cfg w m = (r, a)"
  shows "halted (map Did a) = {}"
  using ollama_warm_actions(1) [OF assms] by auto

lemma ensure_all_procs:
  assumes "ensure_all rt cfg ob model s = (r, s', tr)"
  shows "halted tr = {} \<and>
         (\<forall>p. stt_proc s' = Some p \<longrightarrow> stt_proc s = Some p \<or> p \<in> spawned tr) \<and>
         (\<forall>p. ollama_proc s' = Some p \<longrightarrow> ollama_proc s = Some p \<or> p \<in> spawned tr)"
  using assms
proof (cases rule: ensure_all_shape)
  case (llm_fails e a1)
  from ensure_ollama_server_frame(6) [OF llm_fails(1)] ollama_server_procs [OF llm_fails(1)]
  show ?thesis unfolding llm_fails(3)
    by (simp add: set_stage_def halted_append spawned_append)
next
  case (stt_fails e u1 s2 a1 a2)
  from ensure_ollama_server_frame(6) [OF stt_fails(1)] ollama_server_procs [OF stt_fails(1)]
    ensure_stt_frame(6) [OF stt_fails(2)] stt_procs [OF stt_fails(2)]
  show ?thesis unfolding stt_fails(4)
    by (simp add: set_stage_def halted_append spawned_append) blast
next
  case (tts_fails e u1 u2 s2 s4 a1 a2 a3)
  from ensure_ollama_server_frame(6) [OF tts_fails(1)] ollama_server_procs [OF tts_fails(1)]
    ensure_stt_frame(6) [OF tts_fails(2)] stt_procs [OF tts_fails(2)]
    ensure_kokoro_frame(1) [OF tts_fails(3)] kokoro_procs [OF tts_fails(3)]
  show ?thesis unfolding tts_fails(5)
    by (simp add: set_stage_def halted_append spawned_append) blast
next
  case (warm_fails e u1 u2 u3 s2 s4 s6 a1 a2 a3 a4)
  from ensure_ollama_server_frame(6) [OF warm_fails(1)] ollama_server_procs [OF warm_fails(1)]
    ensure_stt_frame(6) [OF warm_fails(2)] stt_procs [OF warm_fails(2)]
    ensure_kokoro_frame(1) [OF warm_fails(3)] kokoro_procs [OF warm_fails(3)]
    warm_procs [OF warm_fails(5)]
  show ?thesis unfolding warm_fails(7,8)
    by (simp add: set_stage_def halted_append spawned_append) blast
next
  case (warmed u1 u2 u3 u4 s2 s4 s6 a1 a2 a3 a4)
  from ensure_ollama_server_frame(6) [OF warmed(1)] ollama_server_procs [OF warmed(1)]
    ensure_stt_frame(6) [OF warmed(2)] stt_procs [OF warmed(2)]
    ensure_kokoro_frame(1) [OF warmed(3)] kokoro_procs [OF warmed(3)]
    warm_procs [OF warmed(5)]
  show ?thesis unfolding warmed(7,8)
    by (simp add: set_stage_def halted_append spawned_append) blast
next
  case (no_model u1 u2 u3 s2 s4 s6 a1 a2 a3)
  from ensure_ollama_server_frame(6) [OF no_model(1)] ollama_server_procs [OF no_model(1)]
    ensure_stt_frame(6) [OF no_model(2)] stt_procs [OF no_model(2)]
    ensure_kokoro_frame(1) [OF no_model(3)] kokoro_procs [OF no_model(3)]
  show ?thesis unfolding no_model(6,7)
    by (simp add: set_stage_def halted_append spawned_append) blast
qed

lemma worker_body_procs:
  assumes "worker_body rt cfg ob model s = (s', tr)"
  shows "halted tr = {} \<and>
         (\<forall>p. stt_proc s' = Some p \<longrightarrow> stt_proc s = Some p \<or> p \<in> spawned tr) \<and>
         (\<forall>p. ollama_proc s' = Some p \<longrightarrow> ollama_proc s = Some p \<or> p \<in> spawned tr)"
proof (cases "ensure_all rt cfg ob model s")
  case (fields r s1 tr1)
  from ensure_all_procs [OF fields] assms fields show ?thesis
    by (cases r) (auto simp: worker_body_def set_stage_def set_error_def halted_append spawned_append)
qed

lemma halt_halted: "halted (map Did (halt g p)) = {p}"
  by (simp add: halt_def)

lemma stops_halted:
  "halted (map Did (snd (stop_stt g s))) \<subseteq> {p. stt_proc s = Some p}"
  "halted (map Did (snd (stop_kokoro dk s))) = {}"
  "halted (map Did (snd (stop_ollama g s))) \<subseteq> {p. ollama_managed s \<and> ollama_proc s = Some p}"
  by (auto simp: stop_stt_def stop_kokoro_def stop_ollama_def Let_def halt_halted split: option.splits)

lemma stops_spawned:
  "spawned (map Did (snd (stop_stt g s))) = {}"
  "spawned (map Did (snd (stop_kokoro dk s))) = {}"
  "spawned (map Did (snd (stop_ollama g s))) = {}"
  by (auto simp: stop_stt_def stop_kokoro_def stop_ollama_def Let_def halt_def split: option.splits)

lemma unload_quiet:
  "halted (map Did (snd (ollama_unload rt cfg w m))) = {}"
  "spawned (map Did (snd (ollama_unload rt cfg w m))) = {}"
  by (auto simp: ollama_unload_def split: sum.splits)

lemma stops_procs:
  "ollama_proc (fst (stop_stt g s)) = ollama_proc s"
  "ollama_managed (fst (stop_stt g s)) = ollama_managed s"
  "stt_proc (fst (stop_stt g s)) = None"
  "fst (stop_kokoro dk s) = s"
  "stt_proc (fst (stop_ollama g s)) = stt_proc s"
  by (auto simp: stop_stt_def stop_kokoro_def stop_ollama_def Let_def split: option.splits)

lemma idle_teardown_halted:
  assumes "idle_teardown rt cfg ob wm s = (s', acts)"
  shows "halted (map Did acts) \<subseteq> {p. stt_proc s = Some p \<or> ollama_proc s = Some p}"
    and "spawned (map Did acts) = {}"
proof -
  obtain r0 a0 where u: "(if requested wm then ollama_unload rt cfg (td_unload ob) (the wm)
                          else (Inr (), [])) = (r0, a0)" by (cases "if requested wm then ollama_unload rt cfg (td_unload ob) (the wm)
                          else (Inr (), [])")
  have q: "halted (map Did a0) = {}" "spawned (map Did a0) = {}"
    using u unload_quiet [of rt cfg "td_unload ob" "the wm"] by (auto split: if_splits)
  obtain s1 a1 where 1: "stop_stt (td_stt_graceful ob) s = (s1, a1)" by (cases "stop_stt (td_stt_graceful ob) s")
  obtain s2 a2 where 2: "stop_kokoro (td_docker ob) s1 = (s2, a2)" by (cases "stop_kokoro (td_docker ob) s1")
  obtain s3 a3 where 3: "stop_ollama (td_ollama_graceful ob) s2 = (s3, a3)" by (cases "stop_ollama (td_ollama_graceful ob) s2")
  have acts: "acts = a0 \<or> acts = a0 @ a1 @ a2 @ a3"
    using assms u 1 2 3 by (cases r0) (auto simp: idle_teardown_def)
  have h1: "halted (map Did a1) \<subseteq> {p. stt_proc s = Some p}" "spawned (map Did a1) = {}"
    using stops_halted(1) [of "td_stt_graceful ob" s] stops_spawned(1) [of "td_stt_graceful ob" s] 1 by simp_all
  have h2: "halted (map Did a2) = {}" "spawned (map Did a2) = {}" "s2 = s1"
    using stops_halted(2) [of "td_docker ob" s1] stops_spawned(2) [of "td_docker ob" s1]
      stops_procs(4) [of "td_docker ob" s1] 2 by simp_all
  have s1p: "ollama_proc s1 = ollama_proc s"
    using stops_procs(1) [of "td_stt_graceful ob" s] 1 by simp
  have h3: "halted (map Did a3) \<subseteq> {p. ollama_proc s = Some p}" "spawned (map Did a3) = {}"
    using stops_halted(3) [of "td_ollama_graceful ob" s2] stops_spawned(3) [of "td_ollama_graceful ob" s2]
      3 h2(3) s1p by auto
  from acts q h1 h2 h3 show "halted (map Did acts) \<subseteq> {p. stt_proc s = Some p \<or> ollama_proc s = Some p}"
    by (auto simp: halted_append)
  from acts q h1 h2 h3 show "spawned (map Did acts) = {}"
    by (auto simp: spawned_append)
qed

lemma shutdown_halted:
  assumes "shutdown rt cfg ob s = (s', acts)"
  shows "halted (map Did acts) \<subseteq> {p. stt_proc s = Some p \<or> ollama_proc s = Some p}"
    and "spawned (map Did acts) = {}"
proof -
  let ?s0 = "s\<lparr>shutdown_flag := True\<rparr>"
  define a0 where "a0 = (if requested (warm_model ?s0)
             then snd (ollama_unload rt cfg (td_unload ob) (the (warm_model ?s0))) else [])"
  have q: "halted (map Did a0) = {}" "spawned (map Did a0) = {}"
    using unload_quiet [of rt cfg "td_unload ob" "the (warm_model ?s0)"] by (auto simp: a0_def)
  obtain s1 a1 where 1: "stop_stt (td_stt_graceful ob) ?s0 = (s1, a1)" by (cases "stop_stt (td_stt_graceful ob) ?s0")
  obtain s2 a2 where 2: "stop_kokoro (td_docker ob) s1 = (s2, a2)" by (cases "stop_kokoro (td_docker ob) s1")
  obtain s3 a3 where 3: "stop_ollama (td_ollama_graceful ob) s2 = (s3, a3)" by (cases "stop_ollama (td_ollama_graceful ob) s2")
  have acts: "acts = a0 @ a1 @ a2 @ a3"
    using assms 1 2 3 by (simp add: shutdown_def Let_def a0_def)
  have h1: "halted (map Did a1) \<subseteq> {p. stt_proc s = Some p}" "spawned (map Did a1) = {}"
    using stops_halted(1) [of "td_stt_graceful ob" ?s0] stops_spawned(1) [of "td_stt_graceful ob" ?s0] 1 by simp_all
  have h2: "halted (map Did a2) = {}" "spawned (map Did a2) = {}" "s2 = s1"
    using stops_halted(2) [of "td_docker ob" s1] stops_spawned(2) [of "td_docker ob" s1]
      stops_procs(4) [of "td_docker ob" s1] 2 by simp_all
  have s1p: "ollama_proc s1 = ollama_proc s"
    using stops_procs(1) [of "td_stt_graceful ob" ?s0] 1 by simp
  have h3: "halted (map Did a3) \<subseteq> {p. ollama_proc s = Some p}" "spawned (map Did a3) = {}"
    using stops_halted(3) [of "td_ollama_graceful ob" s2] stops_spawned(3) [of "td_ollama_graceful ob" s2]
      3 h2(3) s1p by auto
  from q h1 h2 h3 show "halted (map Did acts) \<subseteq> {p. stt_proc s = Some p \<or> ollama_proc s = Some p}"
    unfolding acts by (auto simp: halted_append)
  from q h1 h2 h3 show "spawned (map Did acts) = {}"
    unfolding acts by (auto simp: spawned_append)
qed

lemma step_owned:
  assumes "owned_procs {} (effects \<sigma>) \<and>
           (\<forall>p. stt_proc (st \<sigma>) = Some p \<longrightarrow> p \<in> spawned (effects \<sigma>)) \<and>
           (\<forall>p. ollama_proc (st \<sigma>) = Some p \<longrightarrow> p \<in> spawned (effects \<sigma>))"
  shows "owned_procs {} (effects (sys_step rt cfg x \<sigma>)) \<and>
           (\<forall>p. stt_proc (st (sys_step rt cfg x \<sigma>)) = Some p \<longrightarrow> p \<in> spawned (effects (sys_step rt cfg x \<sigma>))) \<and>
           (\<forall>p. ollama_proc (st (sys_step rt cfg x \<sigma>)) = Some p \<longrightarrow> p \<in> spawned (effects (sys_step rt cfg x \<sigma>)))"
proof (cases x)
  case (Post ck rq)
  obtain r s1 sp where p: "do_POST rt cfg ck rq (st \<sigma>) = (r, s1, sp)" by (cases "do_POST rt cfg ck rq (st \<sigma>)")
  from do_POST_frame(1,2) [OF p] assms p Post show ?thesis
    by (cases sp) (simp_all add: owned_procs_append spawned_append)
next
  case (WorkerBody i ob)
  show ?thesis
  proof (cases "i < length (workers \<sigma>)")
    case False
    with assms WorkerBody show ?thesis by simp
  next
    case True
    show ?thesis
    proof (cases "workers \<sigma> ! i")
      case Finishing
      with assms WorkerBody True show ?thesis by simp
    next
      case (Admitted m)
      obtain s1 tr where w: "worker_body rt cfg ob m (st \<sigma>) = (s1, tr)"
        by (cases "worker_body rt cfg ob m (st \<sigma>)")
      from worker_body_procs [OF w] have "owned_procs (spawned (effects \<sigma>)) tr"
        by (simp add: owned_procs_halted)
      with worker_body_procs [OF w] assms WorkerBody True Admitted w show ?thesis
        by (auto simp: owned_procs_append spawned_append)
    qed
  qed
next
  case (WorkerFinally i)
  with assms show ?thesis by (simp add: worker_finally_def)
next
  case (Tick now)
  obtain d wm s1 where t: "reaper_tick rt cfg now (st \<sigma>) = (d, wm, s1)"
    by (cases "reaper_tick rt cfg now (st \<sigma>)")
  from reaper_tick_frame(4,5) [OF t] assms Tick t show ?thesis by auto
next
  case (Teardown ob)
  show ?thesis
  proof (cases "reaper \<sigma>")
    case (Stopping wm)
    obtain s1 acts where t: "idle_teardown rt cfg ob wm (st \<sigma>) = (s1, acts)"
      by (cases "idle_teardown rt cfg ob wm (st \<sigma>)")
    from idle_teardown_halted(1) [OF t] assms have "owned_procs (spawned (effects \<sigma>)) (map Did acts)"
      by (intro owned_procs_halted) auto
    with idle_teardown_frame(9,10) [OF t] assms Teardown Stopping t show ?thesis
      by (auto simp: owned_procs_append spawned_append)
  qed (use assms Teardown in auto)
next
  case (Reset now)
  with assms show ?thesis by (auto simp: reaper_reset_def owned_procs_append spawned_append)
next
  case (Shutdown ob)
  obtain s1 acts where t: "shutdown rt cfg ob (st \<sigma>) = (s1, acts)"
    by (cases "shutdown rt cfg ob (st \<sigma>)")
  from shutdown_halted(1) [OF t] assms have "owned_procs (spawned (effects \<sigma>)) (map Did acts)"
    by (intro owned_procs_halted) auto
  with shutdown_frame(8,9) [OF t] assms Shutdown t show ?thesis
    by (auto simp: owned_procs_append spawned_append)
qed

lemma run_owned:
  "owned_procs {} (effects (run rt cfg ops (init_sys t0))) \<and>
   (\<forall>p. stt_proc (st (run rt cfg ops (init_sys t0))) = Some p \<longrightarrow> p \<in> spawned (effects (run rt cfg ops (init_sys t0)))) \<and>
   (\<forall>p. ollama_proc (st (run rt cfg ops (init_sys t0))) = Some p \<longrightarrow> p \<in> spawned (effects (run rt cfg ops (init_sys t0))))"
  by (rule run_invariant) (simp add: init_sys_def init_state_def, rule step_owned)

text \<open>
  C3, as the code has it. In every run of the daemon, every \<open>terminate\<close> and \<open>kill\<close> hits a
  child the daemon itself started earlier: \<open>_stop_stt\<close> stops only the handle it holds,
  \<open>_stop_ollama\<close> only when \<open>ollama_managed\<close> is set. \<open>_stop_kokoro\<close> runs \<open>compose stop\<close>
  whenever a compose binary is found, whoever started the containers.
\<close>

theorem ownership_on_teardown:
  "owned_procs {} (effects (run rt cfg ops (init_sys t0))) \<and>
   snd (stop_stt g s) = (case stt_proc s of None \<Rightarrow> [] | Some p \<Rightarrow> halt g p) \<and>
   snd (stop_ollama g s) =
     (if ollama_managed s then (case ollama_proc s of None \<Rightarrow> [] | Some p \<Rightarrow> halt g p) else []) \<and>
   stop_kokoro dk s = (s, if dk then [ComposeStop] else [])"
  using run_owned [of rt cfg ops t0]
  by (simp add: stop_stt_def stop_ollama_def stop_kokoro_def Let_def split: option.splits)

lemmas sys_defs =
  run_def init_sys_def reaper_tick_def expire_def idle_teardown_def reaper_reset_def
  stop_stt_def stop_kokoro_def stop_ollama_def ollama_unload_def halt_def td0_def

text \<open>
  All three services run before the daemon is asked for anything, so the ensure run
  starts nothing; after the lease is released and the idle time has passed, teardown
  runs \<open>compose stop\<close> all the same.
\<close>

lemma external_tts_run:
  "effects (run rt0 cfg0
      [Post (ck0 9 1 1) (rq_json ''/lease/acquire'' []),
       Post (ck0 9 2 1) (rq_json ''/ensure'' []),
       WorkerBody 0 ob_up, WorkerFinally 0,
       Post (ck0 9 3 2) (rq_json ''/lease/release'' [(''lease_id'', PStr ''l9_42_1'')]),
       Tick 27, Teardown td0, Reset 28] (init_sys 0))
   = [StageSet ''starting'', StageSet ''ensure:ollama_server'', StageSet ''ensure:stt'',
      StageSet ''ensure:kokoro'', StageSet ''ready'', Did ComposeStop, StageSet ''idle'']"
  by (simp add: sys_defs post_defs eval_defs lease_id_9)

theorem tts_stop_counterexample:
  "\<not> owned_all {} False (effects (run rt0 cfg0
      [Post (ck0 9 1 1) (rq_json ''/lease/acquire'' []),
       Post (ck0 9 2 1) (rq_json ''/ensure'' []),
       WorkerBody 0 ob_up, WorkerFinally 0,
       Post (ck0 9 3 2) (rq_json ''/lease/release'' [(''lease_id'', PStr ''l9_42_1'')]),
       Tick 27, Teardown td0, Reset 28] (init_sys 0)))"
  by (simp add: external_tts_run)

subsection \<open>Idle gating of teardown\<close>

lemma tick_fires:
  assumes "reaper_tick rt cfg now s = (True, wm, s')"
  shows "leases s' = []" and "expire rt cfg now (leases s) = []"
    and "IDLE_TIMEOUT_S cfg \<le> fsub rt now (last_zero_lease_time s)"
  using assms by (auto simp: reaper_tick_def Let_def split: if_splits)

lemma acquire_clock:
  assumes "path rq = ''/lease/acquire''" and "read_json rq = Inr m"
  shows "last_zero_lease_time (st (sys_step rt cfg (Post ck rq) \<sigma>)) = mono2 ck"
  using assms by (simp add: do_POST_def post_lease_acquire_def Let_def)

lemma tick_clock:
  assumes "reaper \<sigma> = Sleeping" and "leases (st (sys_step rt cfg (Tick now) \<sigma>)) \<noteq> []"
  shows "last_zero_lease_time (st (sys_step rt cfg (Tick now) \<sigma>)) = now"
  using assms by (auto simp: reaper_tick_def Let_def split: if_splits)

lemma run_snoc: "run rt cfg (xs @ [x]) \<sigma> = sys_step rt cfg x (run rt cfg xs \<sigma>)"
  by (simp add: run_def)

lemma post_state:
  "st (sys_step rt cfg (Post ck rq) \<sigma>) = fst (snd (do_POST rt cfg ck rq (st \<sigma>)))"
proof -
  obtain r s1 sp where p: "do_POST rt cfg ck rq (st \<sigma>) = (r, s1, sp)"
    by (cases "do_POST rt cfg ck rq (st \<sigma>)")
  then show ?thesis by (cases sp) simp_all
qed

lemma post_stamp:
  "last_zero_lease_time (fst (snd (do_POST rt cfg ck rq s))) =
     (case stamp rt cfg (Post ck rq) \<lparr>st = s, workers = ws, reaper = r, effects = es\<rparr> of
        None \<Rightarrow> last_zero_lease_time s | Some v \<Rightarrow> v)"
  by (simp add: do_POST_def post_lease_acquire_def post_lease_heartbeat_def post_lease_release_def
      post_ensure_def Let_def split: sum.splits option.splits)

lemma step_stamp:
  "last_zero_lease_time (st (sys_step rt cfg x \<sigma>)) =
     (case stamp rt cfg x \<sigma> of None \<Rightarrow> last_zero_lease_time (st \<sigma>) | Some v \<Rightarrow> v)"
proof (cases x)
  case (Post ck rq)
  have "\<sigma> = \<lparr>st = st \<sigma>, workers = workers \<sigma>, reaper = reaper \<sigma>, effects = effects \<sigma>\<rparr>" by simp
  with post_stamp [of rt cfg ck rq "st \<sigma>" "workers \<sigma>" "reaper \<sigma>" "effects \<sigma>"] Post
  show ?thesis by (simp only: post_state)
next
  case (WorkerBody i ob)
  show ?thesis
  proof (cases "i < length (workers \<sigma>)")
    case False
    with WorkerBody show ?thesis by simp
  next
    case True
    show ?thesis
    proof (cases "workers \<sigma> ! i")
      case Finishing
      with WorkerBody True show ?thesis by simp
    next
      case (Admitted m)
      obtain s1 tr where w: "worker_body rt cfg ob m (st \<sigma>) = (s1, tr)"
        by (cases "worker_body rt cfg ob m (st \<sigma>)")
      from worker_body_frame [OF w] WorkerBody True Admitted w show ?thesis by simp
    qed
  qed
next
  case (WorkerFinally i)
  then show ?thesis by (simp add: worker_finally_def)
next
  case (Tick now)
  then show ?thesis by (simp add: reaper_tick_def Let_def)
next
  case (Teardown ob)
  show ?thesis
  proof (cases "reaper \<sigma>")
    case (Stopping wm)
    obtain s1 acts where t: "idle_teardown rt cfg ob wm (st \<sigma>) = (s1, acts)"
      by (cases "idle_teardown rt cfg ob wm (st \<sigma>)")
    from idle_teardown_frame(5) [OF t] Teardown Stopping t show ?thesis by simp
  qed (use Teardown in auto)
next
  case (Reset now)
  then show ?thesis by (simp add: reaper_reset_def)
next
  case (Shutdown ob)
  obtain s1 acts where t: "shutdown rt cfg ob (st \<sigma>) = (s1, acts)"
    by (cases "shutdown rt cfg ob (st \<sigma>)")
  from shutdown_frame(5) [OF t] Shutdown t show ?thesis by simp
qed

lemma run_stamps:
  "last_zero_lease_time (st (run rt cfg ops \<sigma>))
     = last (last_zero_lease_time (st \<sigma>) # stamps rt cfg ops \<sigma>)"
proof (induction ops arbitrary: \<sigma>)
  case Nil
  show ?case by (simp add: run_def)
next
  case (Cons x xs)
  have r: "run rt cfg (x # xs) \<sigma> = run rt cfg xs (sys_step rt cfg x \<sigma>)" by (simp add: run_def)
  show ?case
  proof (cases "stamp rt cfg x \<sigma>")
    case None
    with step_stamp [of rt cfg x \<sigma>] Cons.IH [of "sys_step rt cfg x \<sigma>"] r show ?thesis by simp
  next
    case (Some v)
    with step_stamp [of rt cfg x \<sigma>] Cons.IH [of "sys_step rt cfg x \<sigma>"] r show ?thesis by simp
  qed
qed

text \<open>
  C2, as the code has it. Take any run of the daemon and a tick of the reaper, with
  clock reading \<open>t\<close>, that decides to tear down. Then the lease map is empty once the
  tick has expired the stale leases, and the difference between \<open>t\<close> and
  \<open>last_zero_lease_time\<close>, as the code computes it in floating point, is at least
  \<open>idle_timeout_s\<close>. The field holds what the last step that wrote it stored: the reading
  of the latest \<open>/lease/acquire\<close>, release that emptied the map, tick that still found
  a lease or reset after a teardown, in the order in which they held the lock, and the
  reading at start-up if there was none. Every \<open>/lease/acquire\<close> writes it, and so does
  every tick that still finds a lease.
\<close>

theorem idle_gate:
  assumes asleep: "reaper (run rt cfg ops (init_sys t0)) = Sleeping"
    and fires: "reaper (run rt cfg (ops @ [Tick t]) (init_sys t0)) = Stopping wm"
  shows "leases (st (run rt cfg (ops @ [Tick t]) (init_sys t0))) = [] \<and>
     expire rt cfg t (leases (st (run rt cfg ops (init_sys t0)))) = [] \<and>
     IDLE_TIMEOUT_S cfg \<le> fsub rt t (last_zero_lease_time (st (run rt cfg ops (init_sys t0)))) \<and>
     last_zero_lease_time (st (run rt cfg ops (init_sys t0)))
       = last (t0 # stamps rt cfg ops (init_sys t0)) \<and>
     (\<forall>ck rq m \<sigma>. path rq = ''/lease/acquire'' \<and> read_json rq = Inr m \<longrightarrow>
        stamp rt cfg (Post ck rq) \<sigma> = Some (mono2 ck) \<and>
        last_zero_lease_time (st (sys_step rt cfg (Post ck rq) \<sigma>)) = mono2 ck) \<and>
     (\<forall>now \<sigma>. reaper \<sigma> = Sleeping \<and> leases (st (sys_step rt cfg (Tick now) \<sigma>)) \<noteq> [] \<longrightarrow>
        stamp rt cfg (Tick now) \<sigma> = Some now \<and>
        last_zero_lease_time (st (sys_step rt cfg (Tick now) \<sigma>)) = now)"
proof -
  let ?\<sigma> = "run rt cfg ops (init_sys t0)"
  obtain d wm1 s1 where tick: "reaper_tick rt cfg t (st ?\<sigma>) = (d, wm1, s1)"
    by (cases "reaper_tick rt cfg t (st ?\<sigma>)")
  from asleep tick have step: "run rt cfg (ops @ [Tick t]) (init_sys t0)
      = ?\<sigma>\<lparr>st := s1, reaper := (if d then Stopping wm1 else Sleeping)\<rparr>"
    by (simp add: run_snoc)
  from fires step have d: "d" by (cases d) simp_all
  from step have s1: "st (run rt cfg (ops @ [Tick t]) (init_sys t0)) = s1" by simp
  from tick d have tick': "reaper_tick rt cfg t (st ?\<sigma>) = (True, wm1, s1)" by simp
  note f = tick_fires [OF tick']
  have 1: "leases (st (run rt cfg (ops @ [Tick t]) (init_sys t0))) = []" using f(1) s1 by simp
  have 2: "expire rt cfg t (leases (st ?\<sigma>)) = []" using f(2) .
  have 3: "IDLE_TIMEOUT_S cfg \<le> fsub rt t (last_zero_lease_time (st ?\<sigma>))" using f(3) .
  have 4: "last_zero_lease_time (st ?\<sigma>) = last (t0 # stamps rt cfg ops (init_sys t0))"
    using run_stamps [of rt cfg ops "init_sys t0"] by (simp add: init_sys_def init_state_def)
  have 5: "stamp rt cfg (Post ck rq) \<sigma> = Some (mono2 ck) \<and>
        last_zero_lease_time (st (sys_step rt cfg (Post ck rq) \<sigma>)) = mono2 ck"
    if "path rq = ''/lease/acquire''" and "read_json rq = Inr m" for ck rq m \<sigma>
    using that acquire_clock [OF that, of rt cfg ck \<sigma>] by simp
  have 6: "stamp rt cfg (Tick now) \<sigma> = Some now \<and>
        last_zero_lease_time (st (sys_step rt cfg (Tick now) \<sigma>)) = now"
    if a: "reaper \<sigma> = Sleeping" and b: "leases (st (sys_step rt cfg (Tick now) \<sigma>)) \<noteq> []" for now \<sigma>
  proof -
    from a b have "expire rt cfg now (leases (st \<sigma>)) \<noteq> []"
      by (auto simp: reaper_tick_def Let_def split: if_splits)
    with a tick_clock [OF a b] show ?thesis by simp
  qed
  from 1 2 3 4 5 6 show ?thesis by blast
qed

text \<open>
  With an idle timeout and a lease TTL of one second: a lease acquired at 0 is still
  alive at the tick at 1, expires at the tick at 7/4, and the tick at 9/4 tears down,
  although the lease was in the map until 7/4, inside the last second before teardown.
  The tick that expires the last lease does not reset \<open>last_zero_lease_time\<close>.
\<close>

lemma expiry_run:
  "run rt0 cfg1 [Post (ck0 9 1 0) (rq_json ''/lease/acquire'' []), Tick (1/2), Tick 1, Tick (7/4)]
       (init_sys 0)
   = \<lparr> st = (init_state 0)\<lparr>last_zero_lease_time := 1\<rparr>, workers = [], reaper = Sleeping, effects = [] \<rparr>"
  by (simp add: sys_defs post_defs cfg1_def cfg0_def rt0_def init_state_def lease_id_9 Let_def)

lemma expiry_fires:
  "run rt0 cfg1 ([Post (ck0 9 1 0) (rq_json ''/lease/acquire'' []), Tick (1/2), Tick 1, Tick (7/4)]
        @ [Tick (9/4)]) (init_sys 0)
   = \<lparr> st = (init_state 0)\<lparr>last_zero_lease_time := 1\<rparr>, workers = [], reaper = Stopping None,
       effects = [] \<rparr>"
  unfolding run_snoc expiry_run
  by (simp add: sys_defs cfg1_def cfg0_def rt0_def init_state_def Let_def)

lemma expiry_stamps:
  "stamps rt0 cfg1 [Post (ck0 9 1 0) (rq_json ''/lease/acquire'' []), Tick (1/2), Tick 1, Tick (7/4)]
       (init_sys 0) = [0, 1/2, 1]"
  by (simp add: sys_defs post_defs cfg1_def cfg0_def rt0_def init_state_def lease_id_9 Let_def)

theorem idle_gate_witness:
  "leases (st (run rt0 cfg1
      ([Post (ck0 9 1 0) (rq_json ''/lease/acquire'' []), Tick (1/2), Tick 1, Tick (7/4)]
        @ [Tick (9/4)]) (init_sys 0))) = [] \<and>
   IDLE_TIMEOUT_S cfg1 \<le> fsub rt0 (9/4) (last_zero_lease_time (st (run rt0 cfg1
      [Post (ck0 9 1 0) (rq_json ''/lease/acquire'' []), Tick (1/2), Tick 1, Tick (7/4)] (init_sys 0)))) \<and>
   last_zero_lease_time (st (run rt0 cfg1
      [Post (ck0 9 1 0) (rq_json ''/lease/acquire'' []), Tick (1/2), Tick 1, Tick (7/4)] (init_sys 0)))
     = last [0, 0, 1/2, 1]"
proof -
  have a: "reaper (run rt0 cfg1
      [Post (ck0 9 1 0) (rq_json ''/lease/acquire'' []), Tick (1/2), Tick 1, Tick (7/4)] (init_sys 0))
      = Sleeping"
    by (simp add: expiry_run)
  have f: "reaper (run rt0 cfg1
      ([Post (ck0 9 1 0) (rq_json ''/lease/acquire'' []), Tick (1/2), Tick 1, Tick (7/4)]
        @ [Tick (9/4)]) (init_sys 0)) = Stopping None"
    by (simp only: expiry_fires sys.simps)
  from idle_gate [OF a f] show ?thesis unfolding expiry_stamps by blast
qed

theorem idle_window_counterexample:
  "reaper (run rt0 cfg1
      ([Post (ck0 9 1 0) (rq_json ''/lease/acquire'' []), Tick (1/2), Tick 1, Tick (7/4)]
        @ [Tick (9/4)]) (init_sys 0)) = Stopping None \<and>
   9/4 - IDLE_TIMEOUT_S cfg1 \<le> 3/2 \<and> (3/2 :: real) \<le> 9/4 \<and>
   registry_at (timeline rt0 cfg1
      [Post (ck0 9 1 0) (rq_json ''/lease/acquire'' []), Tick (1/2), Tick 1, Tick (7/4), Tick (9/4)]
      (init_sys 0)) [] (3/2)
     = [(''l9_42_1'', \<lparr>lease_id = ''l9_42_1'', last_seen = 0, meta = PDict []\<rparr>)]"
  unfolding expiry_fires
  by (simp add: registry_at_def sys_defs post_defs cfg1_def cfg0_def rt0_def init_state_def lease_id_9 Let_def)

text \<open>
  The reaper reads the clock before it asks for the lock. With an idle timeout of 1/2
  and a TTL of 1/8: the reaper reads 79/8, a lease is acquired at 10 while the reaper
  waits for the lock, and the tick then stores its older reading over the one of the
  acquisition. The next tick, at 83/8, expires the lease and tears down, 3/8 after the
  lease was acquired.
\<close>

lemma stale_reading_run:
  "reaper (run rt0 cfg2 [Post (ck0 9 1 10) (rq_json ''/lease/acquire'' []), Tick (79/8), Tick (83/8)]
       (init_sys 0)) = Stopping None \<and>
   stamps rt0 cfg2 [Post (ck0 9 1 10) (rq_json ''/lease/acquire'' []), Tick (79/8)] (init_sys 0)
     = [10, 79/8]"
  by (simp add: sys_defs post_defs cfg2_def cfg0_def rt0_def init_state_def lease_id_9 Let_def)

subsection \<open>Encoding the responses\<close>

lemma has_surrogate_byte: "has_surrogate s \<Longrightarrow> \<exists>c\<in>set s. of_char c = (237 :: nat)"
  by (induction s rule: has_surrogate.induct) auto

lemma digit_char_code: "d < 10 \<Longrightarrow> of_char (digit_char d) = 48 + d"
  by (simp add: digit_char_def)

lemma str_int_ascii: "c \<in> set (str_int i) \<Longrightarrow> of_char c < (128 :: nat)"
proof -
  assume c: "c \<in> set (str_int i)"
  have n: "of_char x < (128 :: nat)" if "x \<in> set (str_nat k)" for x k
  proof -
    from str_nat_chars [OF that] obtain d where "d < 10" "x = digit_char d" by blast
    then show ?thesis by (simp add: digit_char_code)
  qed
  from c n show ?thesis by (auto simp: str_int_def split: if_splits)
qed

lemma mk_lease_id_clean: "\<not> has_surrogate (mk_lease_id ms pid tid)"
proof
  assume "has_surrogate (mk_lease_id ms pid tid)"
  from has_surrogate_byte [OF this] obtain c where
    c: "c \<in> set (mk_lease_id ms pid tid)" "of_char c = (237 :: nat)" by blast
  from c(1) have "of_char c < (128 :: nat)"
    using str_int_ascii [of c ms] str_int_ascii [of c pid] str_int_ascii [of c tid]
    by (auto simp: mk_lease_id_def)
  with c(2) show False by simp
qed

text \<open>
  Every document a handler of \<open>do_POST\<close> answers with can be encoded, in every state and
  for every request: \<open>_write_json\<close> sends it.
\<close>

lemma do_POST_encodable:
  assumes "fst (do_POST rt cfg ck rq s) = Inr (c, b)"
  shows "write_json c b = Inr (c, b)"
proof -
  have a: "encodable (err_body ''not_found'')" "encodable (err_body ''missing_lease_id'')"
    "encodable (err_body ''unknown_lease'')" "encodable ok_body" "encodable ensuring_body"
    by (simp_all add: err_body_def ok_body_def ensuring_body_def)
  have b: "encodable (PDict [(''ok'', PBool True), (''lease_id'', PStr (mk_lease_id ms pid tid)),
                            (''heartbeat_s'', PFloat x), (''lease_ttl_s'', PFloat y)])" for ms pid tid x y
    by (simp add: mk_lease_id_clean)
  from assms a b have "encodable b"
    by (auto simp: do_POST_def post_lease_acquire_def post_lease_heartbeat_def post_lease_release_def
        post_ensure_def Let_def split: if_splits sum.splits option.splits prod.splits)
  then show ?thesis by (simp add: write_json_def)
qed

subsection \<open>\<open>GET /status\<close>\<close>









text \<open>
  Where the hypotheses fail. A URL without a scheme makes \<open>Request\<close> raise in
  \<open>_http_json\<close>, outside its \<open>try\<close> block, and the first probe passes the exception on. A
  lone surrogate in a string of the document makes the encoding of the response raise
  after the probes have answered.
\<close>

lemma status_bad_url:
  assumes "path rq = ''/status''" and "\<not> url_accepted rt (STT_HEALTH_URL cfg)"
  shows "do_GET rt cfg ob rq s = Inl (ValueError ''unknown url type'')"
  using assms by (simp add: do_GET_def stt_running_def http_json_def)




end
